theory Spec2Isabelle
  imports Main "HOL-Library.Multiset"
begin

section \<open>The e-mail service: data model\<close>

text \<open>
  The development embeds the module that sends single and bulk e-mails
  (\<^verbatim>\<open>createTransport\<close>, \<^verbatim>\<open>processTemplate\<close>, \<^verbatim>\<open>generateEmailContent\<close>,
  \<^verbatim>\<open>formatRecipient\<close>, \<^verbatim>\<open>sendEmail\<close>, \<^verbatim>\<open>sendBulkEmails\<close>).

  Strings are lists of \<^typ>\<open>char\<close>; a \<^typ>\<open>char\<close> stands for one code unit below 256.
  A JavaScript value that may be \<^verbatim>\<open>undefined\<close> is an \<^typ>\<open>'a option\<close>. The source
  tests optional strings for truthiness (\<^verbatim>\<open>if (recipient.name)\<close>, \<^verbatim>\<open>if (!templateId)\<close>,
  \<^verbatim>\<open>else if (smtpConfigId)\<close>, \<^verbatim>\<open>result.message || '...'\<close>): such a string counts when
  it is present and not empty. \<open>supplied\<close> gives the string that counts, if there is one.
\<close>

definition supplied :: "string option \<Rightarrow> string option" where
  "supplied s = (case s of None \<Rightarrow> None | Some v \<Rightarrow> if v \<noteq> [] then Some v else None)"

text \<open>\<^verbatim>\<open>a || b\<close> on an optional string \<open>a\<close> and a string \<open>b\<close>.\<close>

definition orElse :: "string option \<Rightarrow> string \<Rightarrow> string" where
  "orElse s d = (case s of None \<Rightarrow> d | Some v \<Rightarrow> if v \<noteq> [] then v else d)"

text \<open>
  The values of a \<^verbatim>\<open>Record<string, any>\<close> of template data: \<^verbatim>\<open>undefined\<close>, \<^verbatim>\<open>null\<close>,
  booleans and strings, and \<open>JOther s\<close> for every other value (a number, an array, an
  object, a function) whose conversion to a string gives \<open>s\<close>: the number zero is
  \<open>JOther ''0''\<close>, the number \<^verbatim>\<open>1e21\<close> is \<open>JOther ''1e+21''\<close>. The conversion of these
  values is the language's own and is taken from it.
\<close>

datatype jsval = JUndefined | JNull | JBool bool | JStr string | JOther string

text \<open>
  The record of template data is a plain object (an object literal, the parsed body of a
  request, or the default \<^verbatim>\<open>{}\<close>). It is given by the map of its own properties; behind
  them are the members that every plain object inherits from \<^verbatim>\<open>Object.prototype\<close>: eleven
  built-in functions and the accessor \<^verbatim>\<open>__proto__\<close>, which gives the prototype itself.
\<close>

type_synonym jsrecord = "string \<rightharpoonup> jsval"

definition nativeFunction :: "string \<Rightarrow> jsval" where
  "nativeFunction f = JOther (''function '' @ f @ ''() { [native code] }'')"

definition objectPrototype :: "string \<rightharpoonup> jsval" where
  "objectPrototype =
     map_of [(''constructor'', nativeFunction ''Object''),
             (''__defineGetter__'', nativeFunction ''__defineGetter__''),
             (''__defineSetter__'', nativeFunction ''__defineSetter__''),
             (''hasOwnProperty'', nativeFunction ''hasOwnProperty''),
             (''__lookupGetter__'', nativeFunction ''__lookupGetter__''),
             (''__lookupSetter__'', nativeFunction ''__lookupSetter__''),
             (''isPrototypeOf'', nativeFunction ''isPrototypeOf''),
             (''propertyIsEnumerable'', nativeFunction ''propertyIsEnumerable''),
             (''toString'', nativeFunction ''toString''),
             (''valueOf'', nativeFunction ''valueOf''),
             (''__proto__'', JOther ''[object Object]''),
             (''toLocaleString'', nativeFunction ''toLocaleString'')]"

text \<open>
  \<^verbatim>\<open>data[k]\<close>: the own property \<open>k\<close> when the record has one (whatever its value), else
  the inherited member of that name, else \<^verbatim>\<open>undefined\<close>.
\<close>

definition getProp :: "jsrecord \<Rightarrow> string \<Rightarrow> jsval" where
  "getProp d k =
     (case d k of
        Some v \<Rightarrow> v
      | None \<Rightarrow> (case objectPrototype k of None \<Rightarrow> JUndefined | Some v \<Rightarrow> v))"

text \<open>The string that \<^verbatim>\<open>String.prototype.replace\<close> makes of a replacement value.\<close>

fun toStringJs :: "jsval \<Rightarrow> string" where
  "toStringJs JUndefined = ''undefined''"
| "toStringJs JNull = ''null''"
| "toStringJs (JBool b) = (if b then ''true'' else ''false'')"
| "toStringJs (JStr s) = s"
| "toStringJs (JOther s) = s"

text \<open>
  The decimal numeral of a count, as a template literal prints it (\<^verbatim>\<open>${totalSent}\<close>,
  \<^verbatim>\<open>${recipients.length}\<close>).
\<close>

definition digitChar :: "nat \<Rightarrow> char" where
  "digitChar n = ''0123456789'' ! n"

function showNat :: "nat \<Rightarrow> string" where
  "showNat n = (if n < 10 then [digitChar n] else showNat (n div 10) @ [digitChar (n mod 10)])"
  by pat_completeness auto
termination
  by (relation "measure id") auto

section \<open>Template substitution\<close>

text \<open>
  \<^verbatim>\<open>String.prototype.trim\<close>: white space and line terminators are removed at both
  ends; below 256 these are the code units 9 to 13, 32 and 160.
\<close>

definition isWhiteSpace :: "char \<Rightarrow> bool" where
  "isWhiteSpace c = ((of_char c :: nat) \<in> {9, 10, 11, 12, 13, 32, 160})"

definition trim :: "string \<Rightarrow> string" where
  "trim s = rev (dropWhile isWhiteSpace (rev (dropWhile isWhiteSpace s)))"

text \<open>
  One attempt of the regular expression \<^verbatim>\<open>/\{\{([^}]+)\}\}/\<close> at the start of \<open>s\<close>:
  two opening braces, the longest run of characters other than a closing brace (it must
  not be empty; a shorter run cannot be followed by a closing brace, so backtracking adds
  nothing), two closing braces. The result is the captured key and the text after the
  match.
\<close>

definition matchToken :: "string \<Rightarrow> (string \<times> string) option" where
  "matchToken s =
     (case s of
        c1 # c2 # rest \<Rightarrow>
          if c1 = CHR ''{'' \<and> c2 = CHR ''{'' then
            (let key = takeWhile (\<lambda>c. c \<noteq> CHR ''}'') rest;
                 after = dropWhile (\<lambda>c. c \<noteq> CHR ''}'') rest
             in if key \<noteq> [] \<and> take 2 after = ''}}'' then Some (key, drop 2 after) else None)
          else None
      | _ \<Rightarrow> None)"

text \<open>
  The callback of \<^verbatim>\<open>processTemplate\<close>:
  \<^verbatim>\<open>(match, key) => { const value = data[key.trim()]; return value !== undefined ? value : match; }\<close>
\<close>

definition replacement :: "jsrecord \<Rightarrow> string \<Rightarrow> string" where
  "replacement d key =
     (let v = getProp d (trim key)
      in if v \<noteq> JUndefined then toStringJs v else ''{{'' @ key @ ''}}'')"

text \<open>
  The global replace: matches are looked for from left to right, a match is replaced by
  what the callback returns and the scan goes on behind the match; a character at which
  nothing matches is copied.
\<close>

function replaceTokens :: "string \<Rightarrow> jsrecord \<Rightarrow> string" where
  "replaceTokens [] d = []"
| "replaceTokens (c # cs) d =
     (case matchToken (c # cs) of
        Some (key, rest) \<Rightarrow> replacement d key @ replaceTokens rest d
      | None \<Rightarrow> c # replaceTokens cs d)"
  by pat_completeness auto
termination
proof (relation "measure (\<lambda>(s, d). length s)")
  fix c :: char and cs :: string and d :: jsrecord and x2 :: "string \<times> string" and key rest :: string
  assume m: "matchToken (c # cs) = Some x2" and x2: "(key, rest) = x2"
  from m x2 obtain tl where s: "c # cs = CHR ''{'' # CHR ''{'' # tl"
    and r: "rest = drop 2 (dropWhile (\<lambda>c. c \<noteq> CHR ''}'') tl)"
    by (auto simp: matchToken_def Let_def split: list.splits if_splits)
  have "length (dropWhile (\<lambda>c. c \<noteq> CHR ''}'') tl) \<le> length tl"
    by (rule length_dropWhile_le)
  with s r have "length rest < length (c # cs)" by simp
  then show "((rest, d), (c # cs, d)) \<in> measure (\<lambda>(s, d). length s)" by simp
qed simp_all

text \<open>\<^verbatim>\<open>processTemplate(template, data = {})\<close>: an absent record is the empty one.\<close>

definition processTemplate :: "string \<Rightarrow> jsrecord option \<Rightarrow> string" where
  "processTemplate template dataOpt =
     replaceTokens template (case dataOpt of None \<Rightarrow> Map.empty | Some d \<Rightarrow> d)"

section \<open>Recipients\<close>

record EmailRecipient =
  email :: string
  name :: "string option"

datatype Recipients = Single EmailRecipient | Many "EmailRecipient list"

datatype Formatted = FSingle string | FMany "string list"

text \<open>\<^verbatim>\<open>`"${name}" <${email}>`\<close>\<close>

definition quoted :: "string \<Rightarrow> string \<Rightarrow> string" where
  "quoted n e = [CHR 0x22] @ n @ [CHR 0x22] @ '' <'' @ e @ ''>''"

definition formatRecipient :: "EmailRecipient \<Rightarrow> string" where
  "formatRecipient recipient =
     (case name recipient of
        Some n \<Rightarrow> if n \<noteq> [] then quoted n (email recipient) else email recipient
      | None \<Rightarrow> email recipient)"

fun formatRecipients :: "Recipients \<Rightarrow> Formatted" where
  "formatRecipients (Many rs) = FMany (map formatRecipient rs)"
| "formatRecipients (Single r) = FSingle (formatRecipient r)"

section \<open>Configurations, templates and the collaborators\<close>

text \<open>
  The configuration module is not part of the sources at hand; the types below have the
  fields that the e-mail module reads. A stored configuration carries an \<^verbatim>\<open>id\<close> and its
  credentials under \<^verbatim>\<open>auth\<close>; a configuration sent with the request has \<^verbatim>\<open>user\<close> and
  \<^verbatim>\<open>pass\<close> at top level. The tests \<^verbatim>\<open>'auth' in smtpConfig\<close> and \<^verbatim>\<open>'id' in smtpConfig\<close>
  tell the two apart.
\<close>

record Auth =
  user :: string
  pass :: string

record SmtpServerConfig =
  cfgId :: string
  cfgHost :: string
  cfgPort :: int
  cfgSecure :: bool
  cfgAuth :: Auth

record DynamicSmtpConfig =
  dynHost :: string
  dynPort :: int
  dynSecure :: bool
  dynUser :: string
  dynPass :: string

datatype AnyConfig = Stored SmtpServerConfig | Dynamic DynamicSmtpConfig

record TransportConfig =
  host :: string
  port :: int
  secure :: bool
  auth :: Auth

record EmailTemplate =
  tplId :: string
  tplSubject :: string
  tplBody :: string

record Image =
  content :: string
  filename :: string
  cid :: "string option"

record EmailData =
  to :: Recipients
  subject :: string
  body :: string
  sender :: "EmailRecipient option"
  cc :: "EmailRecipient list option"
  bcc :: "EmailRecipient list option"
  templateId :: "string option"
  templateData :: "jsrecord option"
  smtpConfig :: "DynamicSmtpConfig option"
  images :: "Image list option"

text \<open>
  A bulk request. Its \<^verbatim>\<open>batchSize\<close> and \<^verbatim>\<open>delayBetweenBatches\<close> are integers here;
  the fractions, \<^verbatim>\<open>NaN\<close> and the infinities that the type \<^verbatim>\<open>number\<close> also admits are
  not represented.
\<close>

record BulkEmailData =
  recipients :: "EmailRecipient list"
  bulkSubject :: string
  bulkBody :: string
  bulkSender :: "EmailRecipient option"
  bulkCc :: "EmailRecipient list option"
  bulkBcc :: "EmailRecipient list option"
  bulkTemplateId :: "string option"
  bulkTemplateData :: "jsrecord option"
  batchSize :: "int option"
  delayBetweenBatches :: "int option"
  bulkSmtpConfig :: "DynamicSmtpConfig option"

record EmailLogEntry =
  timestamp :: string
  logSmtpConfig :: string
  logTemplateId :: "string option"
  recipient :: string
  logSubject :: string
  logSuccess :: bool
  logMessage :: string

record MailOptions =
  mailFrom :: string
  mailTo :: Formatted
  mailSubject :: string
  html :: string
  mailCc :: "Formatted option"
  mailBcc :: "Formatted option"

text \<open>A thrown value: an \<^verbatim>\<open>Error\<close> with its message, or anything else.\<close>

datatype jsError = Error string | Thrown

text \<open>
  The collaborators of the module, each with the outcomes it can have: the stores of
  configurations and templates (a rejected promise is \<open>Inl\<close>, a missing default is
  \<open>None\<close>), the activity log (\<open>Some e\<close>: the write throws \<open>e\<close>), the transport's
  \<^verbatim>\<open>sendMail\<close> (the message id on success), the part of \<^verbatim>\<open>saveAndProcessImages\<close> that
  works on the file system, and the clock. A collaborator answers the same way whenever
  it is asked the same thing during one call of the module.
\<close>

record Env =
  getSmtpConfigs :: "jsError + SmtpServerConfig list"
  getDefaultSmtpConfig :: "jsError + SmtpServerConfig option"
  getEmailTemplates :: "jsError + EmailTemplate list"
  getDefaultEmailTemplate :: "jsError + EmailTemplate option"
  logEmailActivity :: "EmailLogEntry \<Rightarrow> jsError option"
  sendMail :: "TransportConfig \<Rightarrow> MailOptions \<Rightarrow> jsError + string"
  storeImages :: "string \<Rightarrow> Image list \<Rightarrow> jsError + string"
  now :: string

text \<open>
  What the module does to the outside: the entries that the activity log accepted, the
  number of calls of \<^verbatim>\<open>logEmailActivity\<close>, the messages handed to \<^verbatim>\<open>sendMail\<close> and the
  lines of \<^verbatim>\<open>console.warn\<close>. The informational lines of \<^verbatim>\<open>console.log\<close> and
  \<^verbatim>\<open>logToFile\<close> are left out; neither can throw.
\<close>

record World =
  emailLog :: "EmailLogEntry list"
  logCalls :: nat
  outbox :: "(TransportConfig \<times> MailOptions) list"
  warnings :: "string list"

definition world0 :: World where
  "world0 = \<lparr>emailLog = [], logCalls = 0, outbox = [], warnings = []\<rparr>"

section \<open>createTransport\<close>

text \<open>
  The object given to \<^verbatim>\<open>nodemailer.createTransport\<close>; the transport made from it is
  identified with it.
\<close>

fun transportConfigOf :: "AnyConfig \<Rightarrow> TransportConfig" where
  "transportConfigOf (Stored c) =
     \<lparr>host = cfgHost c, port = cfgPort c, secure = cfgSecure c,
      auth = \<lparr>user = user (cfgAuth c), pass = pass (cfgAuth c)\<rparr>\<rparr>"
| "transportConfigOf (Dynamic c) =
     \<lparr>host = dynHost c, port = dynPort c, secure = dynSecure c,
      auth = \<lparr>user = dynUser c, pass = dynPass c\<rparr>\<rparr>"

text \<open>
  The \<^verbatim>\<open>TypeError\<close> of reading \<^verbatim>\<open>smtpConfig.host\<close> when the store has returned no
  default configuration.
\<close>

definition noHostError :: jsError where
  "noHostError = Error (''Cannot read properties of undefined (reading '' @ [CHR 0x27] @ ''host''
                        @ [CHR 0x27] @ '')'')"

definition createTransport :: "Env \<Rightarrow> string option \<Rightarrow> DynamicSmtpConfig option \<Rightarrow> jsError + TransportConfig" where
  "createTransport env smtpConfigId dynamicConfig =
     (case dynamicConfig of
        Some dc \<Rightarrow> Inr (transportConfigOf (Dynamic dc))
      | None \<Rightarrow>
          (case supplied smtpConfigId of
             Some sid \<Rightarrow>
               (case getSmtpConfigs env of
                  Inl e \<Rightarrow> Inl e
                | Inr configs \<Rightarrow>
                    (case find (\<lambda>c. cfgId c = sid) configs of
                       None \<Rightarrow> Inl (Error (''SMTP configuration with ID '' @ sid @ '' not found''))
                     | Some config \<Rightarrow> Inr (transportConfigOf (Stored config))))
           | None \<Rightarrow>
               (case getDefaultSmtpConfig env of
                  Inl e \<Rightarrow> Inl e
                | Inr None \<Rightarrow> Inl noHostError
                | Inr (Some config) \<Rightarrow> Inr (transportConfigOf (Stored config)))))"

section \<open>generateEmailContent\<close>

definition templateWarning :: "string \<Rightarrow> string" where
  "templateWarning tid = ''Template with ID '' @ tid @ '' not found. Using provided subject and body.''"

definition generateEmailContent ::
  "Env \<Rightarrow> string option \<Rightarrow> jsrecord option \<Rightarrow> string \<Rightarrow> string \<Rightarrow> World
   \<Rightarrow> (jsError + string \<times> string) \<times> World" where
  "generateEmailContent env tidOpt tdata subj bdy w =
     (case supplied tidOpt of
        None \<Rightarrow> (Inr (subj, bdy), w)
      | Some tid \<Rightarrow>
          (case getEmailTemplates env of
             Inl e \<Rightarrow> (Inl e, w)
           | Inr templates \<Rightarrow>
               (case (if tid = ''default'' then getDefaultEmailTemplate env
                      else Inr (find (\<lambda>t. tplId t = tid) templates)) of
                  Inl e \<Rightarrow> (Inl e, w)
                | Inr None \<Rightarrow>
                    (Inr (subj, bdy), w\<lparr>warnings := warnings w @ [templateWarning tid]\<rparr>)
                | Inr (Some template) \<Rightarrow>
                    (Inr (processTemplate (tplSubject template) tdata,
                          processTemplate (tplBody template) tdata), w))))"

section \<open>sendEmail\<close>

record SendResult =
  success :: bool
  message :: "string option"

fun recipientList :: "Recipients \<Rightarrow> EmailRecipient list" where
  "recipientList (Many rs) = rs"
| "recipientList (Single r) = [r]"

text \<open>
  The second resolution of the configuration, in \<^verbatim>\<open>sendEmail\<close> itself. \<open>Inr None\<close>
  stands for its two early returns of \<^verbatim>\<open>{ success: false, message: 'SMTP configuration not found' }\<close>.
\<close>

definition resolveSmtpConfig :: "Env \<Rightarrow> EmailData \<Rightarrow> string option \<Rightarrow> jsError + AnyConfig option" where
  "resolveSmtpConfig env data smtpConfigId =
     (case smtpConfig data of
        Some dc \<Rightarrow> Inr (Some (Dynamic dc))
      | None \<Rightarrow>
          (case supplied smtpConfigId of
             Some sid \<Rightarrow>
               (case getSmtpConfigs env of
                  Inl e \<Rightarrow> Inl e
                | Inr configs \<Rightarrow>
                    (case find (\<lambda>c. cfgId c = sid) configs of
                       None \<Rightarrow> Inr None
                     | Some config \<Rightarrow> Inr (Some (Stored config))))
           | None \<Rightarrow>
               (case getDefaultSmtpConfig env of
                  Inl e \<Rightarrow> Inl e
                | Inr None \<Rightarrow> Inr None
                | Inr (Some config) \<Rightarrow> Inr (Some (Stored config)))))"

definition notFoundResult :: SendResult where
  "notFoundResult = \<lparr>success = False, message = Some ''SMTP configuration not found''\<rparr>"

text \<open>
  \<^verbatim>\<open>saveAndProcessImages\<close>: without images the body is returned as it is; otherwise the
  images are stored and their references in the body rewritten, which is the
  collaborator's part.
\<close>

definition saveAndProcessImages :: "Env \<Rightarrow> string \<Rightarrow> Image list option \<Rightarrow> jsError + string" where
  "saveAndProcessImages env bdy imgs =
     (case imgs of
        None \<Rightarrow> Inr bdy
      | Some is \<Rightarrow> if is = [] then Inr bdy else storeImages env bdy is)"

text \<open>
  \<^verbatim>\<open>if (data.images && data.images.length > 0) { body = await saveAndProcessImages(body, data.images); }\<close>
\<close>

definition withImages :: "Env \<Rightarrow> EmailData \<Rightarrow> string \<Rightarrow> jsError + string" where
  "withImages env data bdy =
     (if images data \<noteq> None \<and> images data \<noteq> Some []
      then saveAndProcessImages env bdy (images data) else Inr bdy)"

definition defaultFrom :: "AnyConfig \<Rightarrow> string" where
  "defaultFrom cfg = (case cfg of Stored c \<Rightarrow> user (cfgAuth c) | Dynamic c \<Rightarrow> dynUser c)"

definition mailOptionsOf :: "EmailData \<Rightarrow> AnyConfig \<Rightarrow> string \<Rightarrow> string \<Rightarrow> MailOptions" where
  "mailOptionsOf data cfg subj bdy =
     \<lparr>mailFrom =
        (case sender data of
           Some f \<Rightarrow>
             (case name f of
                Some n \<Rightarrow> if n \<noteq> [] then quoted n (email f) else email f
              | None \<Rightarrow> email f)
         | None \<Rightarrow> defaultFrom cfg),
      mailTo = formatRecipients (to data),
      mailSubject = subj,
      html = bdy,
      mailCc = (case cc data of Some rs \<Rightarrow> Some (formatRecipients (Many rs)) | None \<Rightarrow> None),
      mailBcc = (case bcc data of Some rs \<Rightarrow> Some (formatRecipients (Many rs)) | None \<Rightarrow> None)\<rparr>"

definition successEntry :: "Env \<Rightarrow> EmailData \<Rightarrow> AnyConfig \<Rightarrow> string \<Rightarrow> string \<Rightarrow> EmailRecipient \<Rightarrow> EmailLogEntry" where
  "successEntry env data cfg subj messageId r =
     \<lparr>timestamp = now env,
      logSmtpConfig = (case cfg of Stored c \<Rightarrow> cfgId c | Dynamic c \<Rightarrow> ''dynamic''),
      logTemplateId = templateId data,
      recipient = email r,
      logSubject = subj,
      logSuccess = True,
      logMessage = ''Message sent: '' @ messageId\<rparr>"

text \<open>\<^verbatim>\<open>error instanceof Error ? error.message : 'Unknown error sending email'\<close>\<close>

definition errorText :: "jsError \<Rightarrow> string" where
  "errorText e = (case e of Error m \<Rightarrow> m | Thrown \<Rightarrow> ''Unknown error sending email'')"

definition failureEntry :: "Env \<Rightarrow> EmailData \<Rightarrow> string option \<Rightarrow> jsError \<Rightarrow> EmailRecipient \<Rightarrow> EmailLogEntry" where
  "failureEntry env data smtpConfigId e r =
     \<lparr>timestamp = now env,
      logSmtpConfig = orElse smtpConfigId ''unknown'',
      logTemplateId = templateId data,
      recipient = email r,
      logSubject = subject data,
      logSuccess = False,
      logMessage = errorText e\<rparr>"

text \<open>
  The loops \<^verbatim>\<open>for (const recipient of recipients) { ...; await logEmailActivity(logEntry); }\<close>:
  the first write that throws ends the loop with its error.
\<close>

fun logEach :: "Env \<Rightarrow> EmailLogEntry list \<Rightarrow> World \<Rightarrow> jsError option \<times> World" where
  "logEach env [] w = (None, w)"
| "logEach env (entry # entries) w =
     (case logEmailActivity env entry of
        Some e \<Rightarrow> (Some e, w\<lparr>logCalls := Suc (logCalls w)\<rparr>)
      | None \<Rightarrow>
          logEach env entries (w\<lparr>emailLog := emailLog w @ [entry], logCalls := Suc (logCalls w)\<rparr>))"

text \<open>
  The end of the \<^verbatim>\<open>try\<close> block, behind the delivery: one success entry is written for
  each recipient and the success is returned; a write that throws sends its error to the
  handler.
\<close>

definition afterDelivery ::
  "Env \<Rightarrow> EmailData \<Rightarrow> AnyConfig \<Rightarrow> string \<Rightarrow> string \<Rightarrow> World \<Rightarrow> (jsError + SendResult) \<times> World" where
  "afterDelivery env data cfg subj messageId w =
     (case logEach env (map (successEntry env data cfg subj messageId) (recipientList (to data))) w of
        (Some e, w1) \<Rightarrow> (Inl e, w1)
      | (None, w1) \<Rightarrow> (Inr \<lparr>success = True, message = Some (''Message sent: '' @ messageId)\<rparr>, w1))"

text \<open>The body of the \<^verbatim>\<open>try\<close> block: \<open>Inl\<close> is an exception on its way to the handler.\<close>

definition sendEmailTry :: "Env \<Rightarrow> EmailData \<Rightarrow> string option \<Rightarrow> World \<Rightarrow> (jsError + SendResult) \<times> World" where
  "sendEmailTry env data smtpConfigId w =
     (case createTransport env smtpConfigId (smtpConfig data) of
        Inl e \<Rightarrow> (Inl e, w)
      | Inr transport \<Rightarrow>
          (case resolveSmtpConfig env data smtpConfigId of
             Inl e \<Rightarrow> (Inl e, w)
           | Inr None \<Rightarrow> (Inr notFoundResult, w)
           | Inr (Some cfg) \<Rightarrow>
               (case generateEmailContent env (templateId data) (templateData data)
                       (subject data) (body data) w of
                  (Inl e, w1) \<Rightarrow> (Inl e, w1)
                | (Inr (subj, bdy0), w1) \<Rightarrow>
                    (case withImages env data bdy0 of
                       Inl e \<Rightarrow> (Inl e, w1)
                     | Inr bdy \<Rightarrow>
                         (let mailOptions = mailOptionsOf data cfg subj bdy;
                              w2 = w1\<lparr>outbox := outbox w1 @ [(transport, mailOptions)]\<rparr>
                          in case sendMail env transport mailOptions of
                               Inl e \<Rightarrow> (Inl e, w2)
                             | Inr messageId \<Rightarrow> afterDelivery env data cfg subj messageId w2)))))"

text \<open>
  \<^verbatim>\<open>sendEmail\<close>: the \<^verbatim>\<open>try\<close> block and its handler. The handler writes one failure entry
  for each recipient (\<^verbatim>\<open>data.to\<close> is always there for a typed request) and returns the
  failure; a log write that throws inside the handler leaves \<^verbatim>\<open>sendEmail\<close> as an
  exception, which is \<open>Inl\<close>.
\<close>

definition sendEmail :: "Env \<Rightarrow> EmailData \<Rightarrow> string option \<Rightarrow> World \<Rightarrow> (jsError + SendResult) \<times> World" where
  "sendEmail env data smtpConfigId w =
     (case sendEmailTry env data smtpConfigId w of
        (Inr result, w1) \<Rightarrow> (Inr result, w1)
      | (Inl e, w1) \<Rightarrow>
          (case logEach env (map (failureEntry env data smtpConfigId e) (recipientList (to data))) w1 of
             (Some e2, w2) \<Rightarrow> (Inl e2, w2)
           | (None, w2) \<Rightarrow> (Inr \<lparr>success = False, message = Some (errorText e)\<rparr>, w2)))"

text \<open>
  \<^verbatim>\<open>sendEmail\<close> in two parts, for callers that run several sends at once. The first part
  is the \<^verbatim>\<open>try\<close> block up to the answer of \<^verbatim>\<open>transport.sendMail\<close>: it ends with an
  exception on its way to the handler, with an early return, or with the message
  delivered.
\<close>

datatype Progress = Threw jsError | Returned SendResult | Delivered AnyConfig string string

definition startSend :: "Env \<Rightarrow> EmailData \<Rightarrow> string option \<Rightarrow> World \<Rightarrow> Progress \<times> World" where
  "startSend env data smtpConfigId w =
     (case createTransport env smtpConfigId (smtpConfig data) of
        Inl e \<Rightarrow> (Threw e, w)
      | Inr transport \<Rightarrow>
          (case resolveSmtpConfig env data smtpConfigId of
             Inl e \<Rightarrow> (Threw e, w)
           | Inr None \<Rightarrow> (Returned notFoundResult, w)
           | Inr (Some cfg) \<Rightarrow>
               (case generateEmailContent env (templateId data) (templateData data)
                       (subject data) (body data) w of
                  (Inl e, w1) \<Rightarrow> (Threw e, w1)
                | (Inr (subj, bdy0), w1) \<Rightarrow>
                    (case withImages env data bdy0 of
                       Inl e \<Rightarrow> (Threw e, w1)
                     | Inr bdy \<Rightarrow>
                         (let mailOptions = mailOptionsOf data cfg subj bdy;
                              w2 = w1\<lparr>outbox := outbox w1 @ [(transport, mailOptions)]\<rparr>
                          in case sendMail env transport mailOptions of
                               Inl e \<Rightarrow> (Threw e, w2)
                             | Inr messageId \<Rightarrow> (Delivered cfg subj messageId, w2))))))"

text \<open>The \<^verbatim>\<open>catch\<close> block of \<^verbatim>\<open>sendEmail\<close>.\<close>

definition catchBlock ::
  "Env \<Rightarrow> EmailData \<Rightarrow> string option \<Rightarrow> jsError \<Rightarrow> World \<Rightarrow> (jsError + SendResult) \<times> World" where
  "catchBlock env data smtpConfigId e w =
     (case logEach env (map (failureEntry env data smtpConfigId e) (recipientList (to data))) w of
        (Some e2, w2) \<Rightarrow> (Inl e2, w2)
      | (None, w2) \<Rightarrow> (Inr \<lparr>success = False, message = Some (errorText e)\<rparr>, w2))"

text \<open>
  The second part is what follows: the log writes behind the delivery, and the handler.
  The two parts one after the other are \<^verbatim>\<open>sendEmail\<close> (lemma \<open>sendEmail_parts\<close>).
\<close>

definition finishSend ::
  "Env \<Rightarrow> EmailData \<Rightarrow> string option \<Rightarrow> Progress \<Rightarrow> World \<Rightarrow> (jsError + SendResult) \<times> World" where
  "finishSend env data smtpConfigId p w =
     (case p of
        Threw e \<Rightarrow> catchBlock env data smtpConfigId e w
      | Returned result \<Rightarrow> (Inr result, w)
      | Delivered cfg subj messageId \<Rightarrow>
          (case afterDelivery env data cfg subj messageId w of
             (Inr result, w1) \<Rightarrow> (Inr result, w1)
           | (Inl e, w1) \<Rightarrow> catchBlock env data smtpConfigId e w1))"

section \<open>sendBulkEmails\<close>

record Failure =
  failEmail :: string
  failError :: string

record BulkResult =
  bulkSuccess :: bool
  totalSent :: nat
  totalFailed :: nat
  failures :: "Failure list option"
  bulkMessage :: "string option"

text \<open>
  \<^verbatim>\<open>Array.prototype.slice(start, end)\<close> on integral arguments: a negative index counts
  from the end, both indices are clamped to the array, and an end before the start gives
  the empty array.
\<close>

definition jsSlice :: "'a list \<Rightarrow> int \<Rightarrow> int \<Rightarrow> 'a list" where
  "jsSlice xs start fin =
     (let n = int (length xs);
          k = (if start < 0 then max (n + start) 0 else min start n);
          final = (if fin < 0 then max (n + fin) 0 else min fin n)
      in take (nat (final - k)) (drop (nat k) xs))"

text \<open>
  The state of a bulk call: the variables \<^verbatim>\<open>failures\<close> and \<^verbatim>\<open>totalSent\<close> that its sends
  share, the outside world, and the timeline of the call, which records each batch when
  its sends are started and each pause \<^verbatim>\<open>setTimeout(resolve, delayBetweenBatches)\<close> when
  it is taken.
\<close>

datatype Event = Batch "EmailRecipient list" | Delay int

record Tally =
  failed :: "Failure list"
  sent :: nat
  world :: World
  timeline :: "Event list"

definition singleData :: "BulkEmailData \<Rightarrow> EmailRecipient \<Rightarrow> EmailData" where
  "singleData data r =
     \<lparr>to = Single r,
      subject = bulkSubject data,
      body = bulkBody data,
      sender = bulkSender data,
      cc = bulkCc data,
      bcc = bulkBcc data,
      templateId = bulkTemplateId data,
      templateData =
        Some ((case bulkTemplateData data of None \<Rightarrow> Map.empty | Some d \<Rightarrow> d)
                (''email'' \<mapsto> JStr (email r), ''name'' \<mapsto> JStr (orElse (name r) []))),
      smtpConfig = bulkSmtpConfig data,
      images = None\<rparr>"

text \<open>
  The sends of a batch run concurrently. \<^verbatim>\<open>batch.map(async ...)\<close> starts them in the
  order of the batch, each runs until its next \<^verbatim>\<open>await\<close>, and \<^verbatim>\<open>Promise.all\<close> waits for
  all of them. The collaborators (the stores, the transport, the log) are taken to answer
  an awaited call one turn after it is made, whatever they are asked, and the answers are
  taken up in the order of the calls, so the sends of a batch advance in step. Up to the
  delivery they await the same calls, whatever the recipient: the
  transport and the template are resolved from the request and the store. So every send
  of the batch has its delivery attempted, in the order of the batch, before any of them
  goes on. What differs is the number of log writes that a send awaits after that: one,
  or two when its success entry is rejected and the handler writes a failure entry. A
  send is complete, and counted, with its last log write. The sends of a batch are
  therefore completed in the order of the number of their log writes, and in the order
  of the batch where that number is the same; \<open>sort_key\<close> is a stable sort.
\<close>

type_synonym Pending = "EmailRecipient \<times> Progress"

text \<open>The first part of the function mapped over a batch, up to the answer of the delivery.\<close>

definition startOne ::
  "Env \<Rightarrow> BulkEmailData \<Rightarrow> string option \<Rightarrow> Pending list \<times> World \<Rightarrow> EmailRecipient \<Rightarrow> Pending list \<times> World" where
  "startOne env data smtpConfigId s r =
     (case startSend env (singleData data r) smtpConfigId (snd s) of
        (p, w) \<Rightarrow> (fst s @ [(r, p)], w))"

text \<open>
  The number of log writes that a send awaits after the answer of the delivery; it is the
  same in every state of the world (lemma \<open>writesLeft_any_world\<close>).
\<close>

definition writesLeft :: "Env \<Rightarrow> BulkEmailData \<Rightarrow> string option \<Rightarrow> Pending \<Rightarrow> nat" where
  "writesLeft env data smtpConfigId q =
     logCalls (snd (finishSend env (singleData data (fst q)) smtpConfigId (snd q) world0))"

text \<open>
  The rest of the function mapped over a batch: the send is finished and counted as sent
  or appended to the failures; an exception of \<^verbatim>\<open>sendEmail\<close> is caught and appended too.
\<close>

definition finishOne :: "Env \<Rightarrow> BulkEmailData \<Rightarrow> string option \<Rightarrow> Tally \<Rightarrow> Pending \<Rightarrow> Tally" where
  "finishOne env data smtpConfigId t q =
     (case finishSend env (singleData data (fst q)) smtpConfigId (snd q) (world t) of
        (Inr result, w) \<Rightarrow>
          if success result then t\<lparr>sent := Suc (sent t), world := w\<rparr>
          else t\<lparr>failed := failed t @ [\<lparr>failEmail = email (fst q),
                                          failError = orElse (message result) ''Unknown error''\<rparr>],
                 world := w\<rparr>
      | (Inl e, w) \<Rightarrow>
          t\<lparr>failed := failed t @ [\<lparr>failEmail = email (fst q),
                                     failError = (case e of Error m \<Rightarrow> m | Thrown \<Rightarrow> ''Unknown error'')\<rparr>],
            world := w\<rparr>)"

text \<open>\<^verbatim>\<open>await Promise.all(batch.map(async (recipient) => { ... }))\<close>\<close>

definition runBatch :: "Env \<Rightarrow> BulkEmailData \<Rightarrow> string option \<Rightarrow> Tally \<Rightarrow> EmailRecipient list \<Rightarrow> Tally" where
  "runBatch env data smtpConfigId t batch =
     (case foldl (startOne env data smtpConfigId) ([], world t) batch of
        (pending, w) \<Rightarrow>
          foldl (finishOne env data smtpConfigId) (t\<lparr>world := w\<rparr>)
            (sort_key (writesLeft env data smtpConfigId) pending))"

definition noteEvent :: "Event \<Rightarrow> Tally \<Rightarrow> Tally" where
  "noteEvent ev t = t\<lparr>timeline := timeline t @ [ev]\<rparr>"

text \<open>
  The loop \<^verbatim>\<open>for (let i = 0; i < recipients.length; i += batchSize)\<close>, one
  iteration for each unit of fuel; \<open>None\<close> when the fuel does not suffice. The batch size
  and the pause are integral numbers.
\<close>

fun bulkLoop :: "nat \<Rightarrow> Env \<Rightarrow> BulkEmailData \<Rightarrow> string option \<Rightarrow> int \<Rightarrow> int \<Rightarrow> int \<Rightarrow> Tally \<Rightarrow> Tally option" where
  "bulkLoop 0 env data smtpConfigId bsize pause i t = None"
| "bulkLoop (Suc fuel) env data smtpConfigId bsize pause i t =
     (if i < int (length (recipients data)) then
        (let batch = jsSlice (recipients data) i (i + bsize);
             t1 = runBatch env data smtpConfigId (noteEvent (Batch batch) t) batch;
             t2 = (if i + bsize < int (length (recipients data)) then noteEvent (Delay pause) t1 else t1)
         in bulkLoop fuel env data smtpConfigId bsize pause (i + bsize) t2)
      else Some t)"

definition bulkSummary :: "nat \<Rightarrow> nat \<Rightarrow> string" where
  "bulkSummary n m = ''Successfully sent '' @ showNat n @ '' out of '' @ showNat m @ '' emails''"

text \<open>
  The defaults of the destructuring
  \<^verbatim>\<open>const { recipients, batchSize = 10, delayBetweenBatches = 1000 } = data\<close>.
\<close>

definition batchSizeOf :: "BulkEmailData \<Rightarrow> int" where
  "batchSizeOf data = (case batchSize data of None \<Rightarrow> 10 | Some b \<Rightarrow> b)"

definition pauseOf :: "BulkEmailData \<Rightarrow> int" where
  "pauseOf data = (case delayBetweenBatches data of None \<Rightarrow> 1000 | Some d \<Rightarrow> d)"

text \<open>
  \<^verbatim>\<open>sendBulkEmails\<close>. Nothing that can throw stands outside the handlers of the single
  sends, so the outer handler of the source is never entered for a typed request.
\<close>

definition sendBulkEmails :: "nat \<Rightarrow> Env \<Rightarrow> BulkEmailData \<Rightarrow> string option \<Rightarrow> World \<Rightarrow> (BulkResult \<times> Tally) option" where
  "sendBulkEmails fuel env data smtpConfigId w =
     (let t0 = \<lparr>failed = [], sent = 0, world = w, timeline = []\<rparr>
      in if recipients data = [] then
           Some (\<lparr>bulkSuccess = False, totalSent = 0, totalFailed = 0, failures = None,
                  bulkMessage = Some ''No recipients provided''\<rparr>, t0)
         else
           (case bulkLoop fuel env data smtpConfigId (batchSizeOf data) (pauseOf data) 0 t0 of
              None \<Rightarrow> None
            | Some t \<Rightarrow>
                Some (\<lparr>bulkSuccess = (sent t > 0),
                       totalSent = sent t,
                       totalFailed = length (failed t),
                       failures = (if length (failed t) > 0 then Some (failed t) else None),
                       bulkMessage = Some (bulkSummary (sent t) (length (recipients data)))\<rparr>,
                      t)))"

section \<open>Notions of the specification\<close>

text \<open>
  The template that a send applies, if any: the one named by the request, looked up the
  way the store is asked (\<^verbatim>\<open>default\<close> names the default template).
\<close>

definition appliedTemplate :: "Env \<Rightarrow> EmailData \<Rightarrow> EmailTemplate option" where
  "appliedTemplate env data =
     (case supplied (templateId data) of
        None \<Rightarrow> None
      | Some tid \<Rightarrow>
          (case getEmailTemplates env of
             Inl e \<Rightarrow> None
           | Inr templates \<Rightarrow>
               if tid = ''default''
               then (case getDefaultEmailTemplate env of Inr (Some t) \<Rightarrow> Some t | _ \<Rightarrow> None)
               else find (\<lambda>t. tplId t = tid) templates))"

text \<open>The subject of the outgoing message: rendered from the applied template, or the literal one.\<close>

definition renderedSubject :: "Env \<Rightarrow> EmailData \<Rightarrow> string" where
  "renderedSubject env data =
     (case appliedTemplate env data of
        Some t \<Rightarrow> processTemplate (tplSubject t) (templateData data)
      | None \<Rightarrow> subject data)"

text \<open>
  Contiguous batches of \<open>k\<close> recipients in input order, the last one holding the
  remainder; and the timeline in which a pause follows every batch but the last.
\<close>

fun chunks :: "nat \<Rightarrow> nat \<Rightarrow> 'a list \<Rightarrow> 'a list list" where
  "chunks 0 k xs = []"
| "chunks (Suc m) k xs = take k xs # chunks m k (drop k xs)"

definition batchesOf :: "nat \<Rightarrow> 'a list \<Rightarrow> 'a list list" where
  "batchesOf k xs = chunks ((length xs + k - 1) div k) k xs"

fun pausedBetween :: "int \<Rightarrow> EmailRecipient list list \<Rightarrow> Event list" where
  "pausedBetween d [] = []"
| "pausedBetween d [b] = [Batch b]"
| "pausedBetween d (b # bs) = Batch b # Delay d # pausedBetween d bs"

text \<open>Whether the single send for a recipient of a bulk request is reported as sent.\<close>

definition sentOk :: "Env \<Rightarrow> BulkEmailData \<Rightarrow> string option \<Rightarrow> EmailRecipient \<Rightarrow> bool" where
  "sentOk env data smtpConfigId r =
     (case fst (sendEmail env (singleData data r) smtpConfigId world0) of
        Inr result \<Rightarrow> success result
      | Inl e \<Rightarrow> False)"

text \<open>A recipient of a bulk request with the state of its send when the delivery is answered.\<close>

definition pendingOf :: "Env \<Rightarrow> BulkEmailData \<Rightarrow> string option \<Rightarrow> EmailRecipient \<Rightarrow> Pending" where
  "pendingOf env data smtpConfigId r = (r, fst (startSend env (singleData data r) smtpConfigId world0))"

text \<open>The order in which the sends of a batch are completed.\<close>

definition completionOrder :: "Env \<Rightarrow> BulkEmailData \<Rightarrow> string option \<Rightarrow> EmailRecipient list \<Rightarrow> EmailRecipient list" where
  "completionOrder env data smtpConfigId batch =
     sort_key (\<lambda>r. writesLeft env data smtpConfigId (pendingOf env data smtpConfigId r)) batch"

text \<open>
  The state in which a bulk call with a positive batch size ends: the batches of the
  specification have been run one after the other, and the timeline shows them with the
  pauses between them.
\<close>

definition finalTally :: "Env \<Rightarrow> BulkEmailData \<Rightarrow> string option \<Rightarrow> World \<Rightarrow> Tally" where
  "finalTally env data sid w =
     (foldl (runBatch env data sid) \<lparr>failed = [], sent = 0, world = w, timeline = []\<rparr>
        (batchesOf (nat (batchSizeOf data)) (recipients data)))
       \<lparr>timeline := pausedBetween (pauseOf data) (batchesOf (nat (batchSizeOf data)) (recipients data))\<rparr>"

section \<open>Sample data\<close>

text \<open>Concrete recipients, configurations and collaborators, used to instantiate the results below.\<close>

definition annRecipient :: EmailRecipient where
  "annRecipient = \<lparr>email = ''ann@x.com'', name = Some (''Ann <'' @ [CHR 0x22] @ ''A'' @ [CHR 0x22] @ ''>'')\<rparr>"

definition bobRecipient :: EmailRecipient where
  "bobRecipient = \<lparr>email = ''bob@x.com'', name = None\<rparr>"

definition storedA :: SmtpServerConfig where
  "storedA = \<lparr>cfgId = ''a'', cfgHost = ''smtp.a.example'', cfgPort = 587, cfgSecure = False,
              cfgAuth = \<lparr>user = ''a@a.example'', pass = ''pa''\<rparr>\<rparr>"

definition storedB :: SmtpServerConfig where
  "storedB = \<lparr>cfgId = ''b'', cfgHost = ''smtp.b.example'', cfgPort = 465, cfgSecure = True,
              cfgAuth = \<lparr>user = ''b@b.example'', pass = ''pb''\<rparr>\<rparr>"

definition inlineC :: DynamicSmtpConfig where
  "inlineC = \<lparr>dynHost = ''smtp.c.example'', dynPort = 25, dynSecure = False,
              dynUser = ''c@c.example'', dynPass = ''pc''\<rparr>"

definition greeting :: EmailTemplate where
  "greeting = \<lparr>tplId = ''greet'', tplSubject = ''Hi {{name}}'', tplBody = ''<p>{{ email }}</p>''\<rparr>"

text \<open>An environment in which everything works.\<close>

definition goodEnv :: Env where
  "goodEnv = \<lparr>getSmtpConfigs = Inr [storedA, storedB],
              getDefaultSmtpConfig = Inr (Some storedA),
              getEmailTemplates = Inr [greeting],
              getDefaultEmailTemplate = Inr (Some greeting),
              logEmailActivity = (\<lambda>entry. None),
              sendMail = (\<lambda>transport options. Inr ''MID1''),
              storeImages = (\<lambda>bdy imgs. Inr bdy),
              now = ''2024-01-01T00:00:00.000Z''\<rparr>"

text \<open>
  Template data with a value that looks like a token, the number zero, an empty string,
  \<^verbatim>\<open>null\<close>, \<^verbatim>\<open>false\<close>, an explicit \<^verbatim>\<open>undefined\<close>, and an own property that hides an
  inherited member.
\<close>

definition annData :: jsrecord where
  "annData = [''name'' \<mapsto> JStr ''{{org}}'', ''count'' \<mapsto> JOther ''0'', ''note'' \<mapsto> JStr [],
              ''nil'' \<mapsto> JNull, ''off'' \<mapsto> JBool False, ''gone'' \<mapsto> JUndefined,
              ''valueOf'' \<mapsto> JStr ''own'']"


definition helloData :: EmailData where
  "helloData = \<lparr>to = Single bobRecipient, subject = ''Hello'', body = ''<p>Hello</p>'',
                sender = None, cc = None, bcc = None, templateId = None, templateData = None,
                smtpConfig = None, images = None\<rparr>"

definition greetData :: EmailData where
  "greetData = helloData\<lparr>templateId := Some ''greet'',
                          templateData := Some [''name'' \<mapsto> JStr ''Ann'', ''email'' \<mapsto> JStr ''ann@x.com'']\<rparr>"

definition missingData :: EmailData where
  "missingData = helloData\<lparr>templateId := Some ''nope''\<rparr>"

text \<open>The transport refuses every message.\<close>

definition bounceEnv :: Env where
  "bounceEnv = goodEnv\<lparr>sendMail := (\<lambda>transport options. Inl (Error ''connection refused''))\<rparr>"

text \<open>The activity log rejects every write.\<close>

definition logDownEnv :: Env where
  "logDownEnv = goodEnv\<lparr>logEmailActivity := (\<lambda>entry. Some (Error ''log unavailable''))\<rparr>"

text \<open>The activity log rejects the entries of successful sends only.\<close>

definition logPickyEnv :: Env where
  "logPickyEnv = goodEnv\<lparr>logEmailActivity :=
       (\<lambda>entry. if logSuccess entry then Some (Error ''log unavailable'') else None)\<rparr>"

definition twoData :: BulkEmailData where
  "twoData = \<lparr>recipients = [annRecipient, bobRecipient], bulkSubject = ''Hello'', bulkBody = ''<p>Hello</p>'',
      bulkSender = None, bulkCc = None, bulkBcc = None, bulkTemplateId = None, bulkTemplateData = None,
      batchSize = None, delayBetweenBatches = None, bulkSmtpConfig = None\<rparr>"


text \<open>Twenty-five recipients, to be sent in batches of ten.\<close>

definition manyData :: BulkEmailData where
  "manyData = twoData\<lparr>recipients := replicate 25 bobRecipient, batchSize := Some 10\<rparr>"

definition cyRecipient :: EmailRecipient where
  "cyRecipient = \<lparr>email = ''cy@x.com'', name = Some ''Cy''\<rparr>"

definition diRecipient :: EmailRecipient where
  "diRecipient = \<lparr>email = ''di@x.com'', name = None\<rparr>"

definition edRecipient :: EmailRecipient where
  "edRecipient = \<lparr>email = ''ed@x.com'', name = None\<rparr>"



text \<open>Five recipients, to be sent in batches of two with a pause of 250 milliseconds.\<close>

definition fiveData :: BulkEmailData where
  "fiveData = twoData\<lparr>recipients := [annRecipient, bobRecipient, cyRecipient, diRecipient, edRecipient],
                       batchSize := Some 2, delayBetweenBatches := Some 250\<rparr>"

text \<open>A request with the batch size zero.\<close>

definition zeroData :: BulkEmailData where
  "zeroData = twoData\<lparr>batchSize := Some 0\<rparr>"

text \<open>The transport made from the stored configuration \<open>storedA\<close>.\<close>

definition transportA :: TransportConfig where
  "transportA = transportConfigOf (Stored storedA)"

section \<open>Template substitution: results\<close>

text \<open>
  The matcher accepts exactly the texts that begin with a token: two opening braces, a
  non-empty key without a closing brace, two closing braces.
\<close>

lemma matchToken_token:
  assumes "key \<noteq> []" and "CHR ''}'' \<notin> set key"
  shows "matchToken (''{{'' @ key @ ''}}'' @ rest) = Some (key, rest)"
proof -
  have tw: "takeWhile (\<lambda>c. c \<noteq> CHR ''}'') (key @ CHR ''}'' # CHR ''}'' # rest) = key"
    using assms(2) by (induction key) auto
  have dw: "dropWhile (\<lambda>c. c \<noteq> CHR ''}'') (key @ CHR ''}'' # CHR ''}'' # rest) = CHR ''}'' # CHR ''}'' # rest"
    using assms(2) by (induction key) auto
  show ?thesis
    using assms(1) by (simp add: matchToken_def tw dw)
qed

lemma matchToken_SomeD:
  assumes "matchToken s = Some (key, rest)"
  shows "s = ''{{'' @ key @ ''}}'' @ rest \<and> key \<noteq> [] \<and> CHR ''}'' \<notin> set key"
proof -
  from assms obtain tl where s: "s = CHR ''{'' # CHR ''{'' # tl"
    and k: "key = takeWhile (\<lambda>c. c \<noteq> CHR ''}'') tl" and ne: "key \<noteq> []"
    and t: "take 2 (dropWhile (\<lambda>c. c \<noteq> CHR ''}'') tl) = ''}}''"
    and r: "rest = drop 2 (dropWhile (\<lambda>c. c \<noteq> CHR ''}'') tl)"
    by (auto simp: matchToken_def Let_def split: list.splits if_splits)
  have "tl = key @ dropWhile (\<lambda>c. c \<noteq> CHR ''}'') tl"
    by (simp add: k)
  also have "dropWhile (\<lambda>c. c \<noteq> CHR ''}'') tl = ''}}'' @ rest"
    using t r append_take_drop_id [of 2 "dropWhile (\<lambda>c. c \<noteq> CHR ''}'') tl"] by simp
  finally have "tl = key @ ''}}'' @ rest" .
  moreover have "CHR ''}'' \<notin> set key"
    unfolding k by (auto dest: set_takeWhileD)
  ultimately show ?thesis using s ne by simp
qed

lemma matchToken_iff:
  "matchToken s = Some (key, rest) \<longleftrightarrow>
     s = ''{{'' @ key @ ''}}'' @ rest \<and> key \<noteq> [] \<and> CHR ''}'' \<notin> set key"
  using matchToken_SomeD matchToken_token by blast








text \<open>Falsy values are substituted: the empty string, \<^verbatim>\<open>null\<close>, \<^verbatim>\<open>false\<close> and zero.\<close>

lemma processTemplate_falsy_values:
  "processTemplate ''[{{note}}|{{nil}}|{{off}}|{{ count }}]'' (Some annData) = ''[|null|false|0]''"
  by (simp add: processTemplate_def matchToken_def replacement_def getProp_def trim_def
      isWhiteSpace_def annData_def)


section \<open>Recipients: results\<close>

text \<open>
  C10. \<^verbatim>\<open>formatRecipient\<close> returns the display name between double quotes, a space and
  the address between angle brackets when there is a display name (one that passes the
  source's truthiness test), and the bare address otherwise. The name is inserted as it
  is, whatever characters it contains; the sample name contains double quotes and angle
  brackets. \<^verbatim>\<open>formatRecipients\<close> keeps the shape of its argument.
\<close>

theorem formatRecipient_verbatim:
  "(supplied (name r) = Some n \<longrightarrow>
      formatRecipient r = [CHR 0x22] @ n @ [CHR 0x22] @ '' <'' @ email r @ ''>'')
   \<and> (supplied (name r) = None \<longrightarrow> formatRecipient r = email r)
   \<and> formatRecipients (Single r) = FSingle (formatRecipient r)
   \<and> formatRecipients (Many rs) = FMany (map formatRecipient rs)"
  by (auto simp: formatRecipient_def supplied_def quoted_def split: option.splits if_splits)

theorem formatRecipient_verbatim_witness:
  "supplied (name annRecipient) = Some (''Ann <'' @ [CHR 0x22] @ ''A'' @ [CHR 0x22] @ ''>'')
   \<and> formatRecipient annRecipient
       = [CHR 0x22] @ ''Ann <'' @ [CHR 0x22] @ ''A'' @ [CHR 0x22] @ ''>'' @ [CHR 0x22] @ '' <ann@x.com>''
   \<and> supplied (name bobRecipient) = None
   \<and> formatRecipient bobRecipient = ''bob@x.com''"
  using formatRecipient_verbatim [of annRecipient "''Ann <'' @ [CHR 0x22] @ ''A'' @ [CHR 0x22] @ ''>''"]
    formatRecipient_verbatim [of bobRecipient]
  by (simp add: annRecipient_def bobRecipient_def supplied_def)


section \<open>createTransport: results\<close>

text \<open>
  C2. \<^verbatim>\<open>createTransport\<close> resolves the configuration in a fixed order, and the
  transport it returns has the host, the port, the security flag, the user and the
  password of the configuration it chose. A configuration sent with the request is used
  whatever else is given. Without it, a configuration id (one that passes the truthiness
  test) selects the stored configuration with that id, and the call fails when no stored
  configuration has the id. Without both, the default configuration of the store is
  used, and the call fails when the store has none.
\<close>

theorem createTransport_precedence:
  "createTransport env sid (Some dc)
     = Inr \<lparr>host = dynHost dc, port = dynPort dc, secure = dynSecure dc,
            auth = \<lparr>user = dynUser dc, pass = dynPass dc\<rparr>\<rparr>
   \<and> (supplied sid = Some i \<and> getSmtpConfigs env = Inr configs
        \<and> find (\<lambda>c. cfgId c = i) configs = Some c
      \<longrightarrow> createTransport env sid None
            = Inr \<lparr>host = cfgHost c, port = cfgPort c, secure = cfgSecure c,
                   auth = \<lparr>user = user (cfgAuth c), pass = pass (cfgAuth c)\<rparr>\<rparr>)
   \<and> (supplied sid = Some i \<and> getSmtpConfigs env = Inr configs
        \<and> (\<forall>c \<in> set configs. cfgId c \<noteq> i)
      \<longrightarrow> createTransport env sid None
            = Inl (Error (''SMTP configuration with ID '' @ i @ '' not found'')))
   \<and> (supplied sid = None \<and> getDefaultSmtpConfig env = Inr (Some c)
      \<longrightarrow> createTransport env sid None
            = Inr \<lparr>host = cfgHost c, port = cfgPort c, secure = cfgSecure c,
                   auth = \<lparr>user = user (cfgAuth c), pass = pass (cfgAuth c)\<rparr>\<rparr>)
   \<and> (supplied sid = None \<and> getDefaultSmtpConfig env = Inr None
      \<longrightarrow> (\<exists>e. createTransport env sid None = Inl e))"
proof -
  have "find (\<lambda>c. cfgId c = i) configs = None" if "\<forall>c \<in> set configs. cfgId c \<noteq> i"
    using that by (simp add: find_None_iff)
  then show ?thesis
    by (auto simp: createTransport_def)
qed

theorem createTransport_precedence_witness:
  "createTransport goodEnv (Some ''b'') (Some inlineC)
     = Inr \<lparr>host = ''smtp.c.example'', port = 25, secure = False,
            auth = \<lparr>user = ''c@c.example'', pass = ''pc''\<rparr>\<rparr>
   \<and> createTransport goodEnv (Some ''b'') None
     = Inr \<lparr>host = ''smtp.b.example'', port = 465, secure = True,
            auth = \<lparr>user = ''b@b.example'', pass = ''pb''\<rparr>\<rparr>
   \<and> createTransport goodEnv None None
     = Inr \<lparr>host = ''smtp.a.example'', port = 587, secure = False,
            auth = \<lparr>user = ''a@a.example'', pass = ''pa''\<rparr>\<rparr>
   \<and> createTransport goodEnv (Some []) None
     = Inr \<lparr>host = ''smtp.a.example'', port = 587, secure = False,
            auth = \<lparr>user = ''a@a.example'', pass = ''pa''\<rparr>\<rparr>
   \<and> createTransport goodEnv (Some ''zz'') None
     = Inl (Error ''SMTP configuration with ID zz not found'')
   \<and> (\<exists>e. createTransport (goodEnv\<lparr>getDefaultSmtpConfig := Inr None\<rparr>) None None = Inl e)"
  using createTransport_precedence [of goodEnv "Some ''b''" inlineC "''b''" "[storedA, storedB]" storedB]
    createTransport_precedence [of goodEnv None inlineC "''b''" "[storedA, storedB]" storedA]
    createTransport_precedence [of goodEnv "Some []" inlineC "''b''" "[storedA, storedB]" storedA]
    createTransport_precedence [of goodEnv "Some ''zz''" inlineC "''zz''" "[storedA, storedB]" storedA]
    createTransport_precedence [of "goodEnv\<lparr>getDefaultSmtpConfig := Inr None\<rparr>" None inlineC "''b''" "[storedA, storedB]" storedA]
  by (simp add: goodEnv_def supplied_def storedA_def storedB_def inlineC_def)

section \<open>sendEmail: results\<close>

text \<open>Unfolding rules for running the model on the sample data.\<close>

lemmas send_defs = sendEmail_def sendEmailTry_def createTransport_def resolveSmtpConfig_def
  generateEmailContent_def withImages_def afterDelivery_def failureEntry_def successEntry_def
  mailOptionsOf_def world0_def supplied_def orElse_def errorText_def defaultFrom_def
  processTemplate_def matchToken_def replacement_def getProp_def objectPrototype_def
  nativeFunction_def trim_def isWhiteSpace_def

lemmas sample_defs = goodEnv_def bounceEnv_def logDownEnv_def logPickyEnv_def helloData_def
  greetData_def missingData_def greeting_def annRecipient_def bobRecipient_def storedA_def storedB_def


subsection \<open>The log writes and the stages of the try block\<close>

lemma logEach_accepts:
  "(\<forall>entry \<in> set entries. logEmailActivity env entry = None) \<Longrightarrow>
     logEach env entries w
       = (None, w\<lparr>emailLog := emailLog w @ entries, logCalls := logCalls w + length entries\<rparr>)"
  by (induction entries arbitrary: w) simp_all

lemma logEach_rejects:
  "logEach env entries w = (Some e, w1) \<Longrightarrow>
     \<exists>entry \<in> set entries. logEmailActivity env entry = Some e"
  by (induction entries arbitrary: w) (auto split: option.splits)

lemma logEach_fst:
  "fst (logEach env entries w) = fst (logEach env entries w')"
  by (induction entries arbitrary: w w') (auto split: option.splits)

lemma logEach_world:
  "logEach env entries w = (r, w1) \<Longrightarrow>
     \<exists>k \<le> length entries. emailLog w1 = emailLog w @ take k entries
        \<and> outbox w1 = outbox w \<and> warnings w1 = warnings w"
proof (induction entries arbitrary: w)
  case Nil
  then show ?case by simp
next
  case (Cons entry entries)
  show ?case
  proof (cases "logEmailActivity env entry")
    case None
    with Cons.prems have "logEach env entries
        (w\<lparr>emailLog := emailLog w @ [entry], logCalls := Suc (logCalls w)\<rparr>) = (r, w1)"
      by simp
    from Cons.IH [OF this] obtain k where "k \<le> length entries"
      "emailLog w1 = emailLog w @ entry # take k entries" "outbox w1 = outbox w" "warnings w1 = warnings w"
      by auto
    then show ?thesis by (intro exI [of _ "Suc k"]) simp
  next
    case (Some e)
    with Cons.prems show ?thesis by (intro exI [of _ 0]) auto
  qed
qed

lemma createTransport_resolves:
  "createTransport env sid (smtpConfig data) = Inr tr \<Longrightarrow>
     \<exists>cfg. resolveSmtpConfig env data sid = Inr (Some cfg) \<and> tr = transportConfigOf cfg"
  by (auto simp: createTransport_def resolveSmtpConfig_def split: option.splits sum.splits)

lemma generateEmailContent_world:
  "generateEmailContent env tid td subj bdy w = (r, w1) \<Longrightarrow>
     emailLog w1 = emailLog w \<and> logCalls w1 = logCalls w \<and> outbox w1 = outbox w"
  by (auto simp: generateEmailContent_def split: option.splits sum.splits if_splits)

lemma generateEmailContent_fst:
  "fst (generateEmailContent env tid td subj bdy w) = fst (generateEmailContent env tid td subj bdy w')"
  by (auto simp: generateEmailContent_def split: option.splits sum.splits if_splits)


lemma sendEmailTry_delivered:
  assumes "createTransport env sid (smtpConfig data) = Inr tr"
    and "resolveSmtpConfig env data sid = Inr (Some cfg)"
    and "generateEmailContent env (templateId data) (templateData data) (subject data) (body data) w
           = (Inr (subj, bdy0), w1)"
    and "withImages env data bdy0 = Inr bdy"
    and "sendMail env tr (mailOptionsOf data cfg subj bdy) = Inr mid"
  shows "sendEmailTry env data sid w
           = afterDelivery env data cfg subj mid
               (w1\<lparr>outbox := outbox w1 @ [(tr, mailOptionsOf data cfg subj bdy)]\<rparr>)"
  using assms by (simp add: sendEmailTry_def Let_def)

lemma sendEmailTry_cases:
  obtains (stopped) e w1 where "sendEmailTry env data sid w = (Inl e, w1)"
      "emailLog w1 = emailLog w" "logCalls w1 = logCalls w"
  | (delivered) tr cfg subj bdy0 w1 bdy mid where
      "createTransport env sid (smtpConfig data) = Inr tr"
      "resolveSmtpConfig env data sid = Inr (Some cfg)"
      "generateEmailContent env (templateId data) (templateData data) (subject data) (body data) w
         = (Inr (subj, bdy0), w1)"
      "withImages env data bdy0 = Inr bdy"
      "sendMail env tr (mailOptionsOf data cfg subj bdy) = Inr mid"
proof (cases "createTransport env sid (smtpConfig data)")
  case (Inl e)
  then have "sendEmailTry env data sid w = (Inl e, w)" by (simp add: sendEmailTry_def)
  then show ?thesis by (rule stopped) simp_all
next
  case (Inr tr)
  from createTransport_resolves [OF this] obtain cfg
    where cfg: "resolveSmtpConfig env data sid = Inr (Some cfg)" by blast
  obtain g w1 where gen: "generateEmailContent env (templateId data) (templateData data)
      (subject data) (body data) w = (g, w1)" by (cases "generateEmailContent env (templateId data) (templateData data)
      (subject data) (body data) w")
  from generateEmailContent_world [OF gen]
  have w1: "emailLog w1 = emailLog w" "logCalls w1 = logCalls w" by simp_all
  show ?thesis
  proof (cases g)
    case (Inl e)
    with Inr cfg gen have "sendEmailTry env data sid w = (Inl e, w1)" by (simp add: sendEmailTry_def)
    then show ?thesis using w1 by (rule stopped)
  next
    case g: (Inr sb)
    obtain subj bdy0 where sb: "sb = (subj, bdy0)" by (cases sb)
    show ?thesis
    proof (cases "withImages env data bdy0")
      case (Inl e)
      with Inr cfg gen g sb have "sendEmailTry env data sid w = (Inl e, w1)"
        by (simp add: sendEmailTry_def)
      then show ?thesis using w1 by (rule stopped)
    next
      case img: (Inr bdy)
      show ?thesis
      proof (cases "sendMail env tr (mailOptionsOf data cfg subj bdy)")
        case (Inl e)
        with Inr cfg gen g sb img
        have "sendEmailTry env data sid w
                = (Inl e, w1\<lparr>outbox := outbox w1 @ [(tr, mailOptionsOf data cfg subj bdy)]\<rparr>)"
          by (simp add: sendEmailTry_def Let_def)
        then show ?thesis by (rule stopped) (simp_all add: w1)
      next
        case (Inr mid)
        from \<open>createTransport env sid (smtpConfig data) = Inr tr\<close> cfg gen [unfolded g sb] img Inr
        show ?thesis by (rule delivered)
      qed
    qed
  qed
qed


lemma logEach_None_iff:
  "fst (logEach env entries w) = None \<longleftrightarrow> (\<forall>entry \<in> set entries. logEmailActivity env entry = None)"
  by (induction entries arbitrary: w) (auto split: option.splits)

lemma afterDelivery_world:
  assumes "afterDelivery env data cfg subj mid w = (r, w1)"
  shows "\<exists>k. emailLog w1 = emailLog w @ take k (map (successEntry env data cfg subj mid) (recipientList (to data)))
           \<and> outbox w1 = outbox w \<and> warnings w1 = warnings w"
proof -
  obtain lr lw where l: "logEach env (map (successEntry env data cfg subj mid) (recipientList (to data))) w = (lr, lw)"
    by (cases "logEach env (map (successEntry env data cfg subj mid) (recipientList (to data))) w")
  with assms have "w1 = lw" by (auto simp: afterDelivery_def split: option.splits)
  with logEach_world [OF l] show ?thesis by blast
qed

lemma generateEmailContent_rendered:
  assumes "generateEmailContent env (templateId data) (templateData data) (subject data) (body data) w
             = (Inr (subj, bdy), w1)"
  shows "subj = renderedSubject env data"
  using assms
  by (auto simp: generateEmailContent_def renderedSubject_def appliedTemplate_def
      split: option.splits sum.splits if_splits)

lemma sendEmailTry_world:
  assumes "sendEmailTry env data sid w = (r, w1)"
  shows "\<exists>new. emailLog w1 = emailLog w @ new
           \<and> (\<forall>entry \<in> set new. logSuccess entry \<and> logSubject entry = renderedSubject env data)"
proof (cases rule: sendEmailTry_cases [of env data sid w])
  case (stopped e w')
  with assms show ?thesis by (intro exI [of _ "[]"]) simp
next
  case (delivered tr cfg subj bdy0 w' bdy mid)
  from sendEmailTry_delivered [OF delivered] assms
  have "afterDelivery env data cfg subj mid (w'\<lparr>outbox := outbox w' @ [(tr, mailOptionsOf data cfg subj bdy)]\<rparr>)
          = (r, w1)" by simp
  from afterDelivery_world [OF this] obtain k where
    k: "emailLog w1 = emailLog w' @ take k (map (successEntry env data cfg subj mid) (recipientList (to data)))"
    by auto
  have w': "emailLog w' = emailLog w"
    using generateEmailContent_world [OF delivered(3)] by simp
  have subj: "subj = renderedSubject env data"
    by (rule generateEmailContent_rendered [OF delivered(3)])
  have "\<forall>entry \<in> set (take k (map (successEntry env data cfg subj mid) (recipientList (to data)))).
          logSuccess entry \<and> logSubject entry = renderedSubject env data"
    using subj by (auto dest!: in_set_takeD simp: successEntry_def)
  with k w' show ?thesis by auto
qed

lemma sendEmail_handler:
  assumes "sendEmailTry env data sid w = (Inl e, w1)"
  shows "sendEmail env data sid w =
     (case logEach env (map (failureEntry env data sid e) (recipientList (to data))) w1 of
        (Some e2, w2) \<Rightarrow> (Inl e2, w2)
      | (None, w2) \<Rightarrow> (Inr \<lparr>success = False, message = Some (errorText e)\<rparr>, w2))"
  using assms by (simp add: sendEmail_def)

lemma sendEmail_passes:
  assumes "sendEmailTry env data sid w = (Inr res, w1)"
  shows "sendEmail env data sid w = (Inr res, w1)"
  using assms by (simp add: sendEmail_def)


subsection \<open>The subject in the log entries\<close>

text \<open>
  C9, as the code has it. The entries that \<^verbatim>\<open>sendEmail\<close> appends to the log are of two
  kinds: an entry of a successful send records the rendered subject (the subject after
  template substitution when a template was applied), and an entry written by the
  handler for a failed attempt records the literal subject of the request.
\<close>

theorem sendEmail_log_subjects:
  "\<exists>new. emailLog (snd (sendEmail env data sid w)) = emailLog w @ new
     \<and> (\<forall>entry \<in> set new.
           (logSuccess entry \<longrightarrow> logSubject entry = renderedSubject env data)
         \<and> (\<not> logSuccess entry \<longrightarrow> logSubject entry = subject data))"
proof -
  obtain r w1 where t: "sendEmailTry env data sid w = (r, w1)"
    by (cases "sendEmailTry env data sid w")
  from sendEmailTry_world [OF t] obtain new1 where
    n1: "emailLog w1 = emailLog w @ new1"
      "\<forall>entry \<in> set new1. logSuccess entry \<and> logSubject entry = renderedSubject env data"
    by blast
  show ?thesis
  proof (cases r)
    case (Inr res)
    with t have "sendEmail env data sid w = (Inr res, w1)" by (simp add: sendEmail_def)
    with n1 show ?thesis by auto
  next
    case (Inl e)
    obtain lr w2 where l: "logEach env (map (failureEntry env data sid e) (recipientList (to data))) w1 = (lr, w2)"
      by (cases "logEach env (map (failureEntry env data sid e) (recipientList (to data))) w1")
    from logEach_world [OF l] obtain k where
      k: "emailLog w2 = emailLog w1 @ take k (map (failureEntry env data sid e) (recipientList (to data)))"
      by blast
    have "snd (sendEmail env data sid w) = w2"
      using t Inl l by (auto simp: sendEmail_def split: option.splits)
    moreover have "\<forall>entry \<in> set (take k (map (failureEntry env data sid e) (recipientList (to data)))).
        \<not> logSuccess entry \<and> logSubject entry = subject data"
      by (auto dest!: in_set_takeD simp: failureEntry_def)
    ultimately show ?thesis using k n1
      by (intro exI [of _ "new1 @ take k (map (failureEntry env data sid e) (recipientList (to data)))"]) auto
  qed
qed

theorem sendEmail_log_subjects_witness:
  "\<exists>new. new \<noteq> [] \<and> emailLog (snd (sendEmail goodEnv greetData None world0)) = emailLog world0 @ new
     \<and> (\<forall>entry \<in> set new.
           (logSuccess entry \<longrightarrow> logSubject entry = renderedSubject goodEnv greetData)
         \<and> (\<not> logSuccess entry \<longrightarrow> logSubject entry = subject greetData))"
proof -
  have "emailLog (snd (sendEmail goodEnv greetData None world0)) \<noteq> emailLog world0"
    by (simp add: send_defs sample_defs)
  with sendEmail_log_subjects [of goodEnv greetData None world0] show ?thesis
    by auto
qed


text \<open>
  C9 as stated fails: with a template applied and a transport that refuses the message,
  the message handed to the transport has the rendered subject \<^verbatim>\<open>Hi Ann\<close>, and the entry
  written for the failed attempt has the literal subject \<^verbatim>\<open>Hello\<close>.
\<close>

theorem failed_send_logs_literal_subject:
  "map logSubject (emailLog (snd (sendEmail bounceEnv greetData None world0))) = [''Hello'']
   \<and> map logSuccess (emailLog (snd (sendEmail bounceEnv greetData None world0))) = [False]
   \<and> map (mailSubject \<circ> snd) (outbox (snd (sendEmail bounceEnv greetData None world0))) = [''Hi Ann'']
   \<and> renderedSubject bounceEnv greetData = ''Hi Ann''"
  by (simp add: send_defs sample_defs renderedSubject_def appliedTemplate_def)


subsection \<open>Exceptions of sendEmail\<close>

text \<open>
  C4, as the code has it. When the log accepts the failure entries, \<^verbatim>\<open>sendEmail\<close> returns
  a result and does not throw, and every exception of its \<^verbatim>\<open>try\<close> block (from the stores,
  the transport resolution, the delivery, the images or a write of a success entry)
  becomes \<^verbatim>\<open>{ success: false, message: <error text> }\<close>. When a write of a failure entry
  throws in the handler, \<^verbatim>\<open>sendEmail\<close> throws.
\<close>

theorem sendEmail_raises_only_from_handler:
  "((\<forall>r \<in> set (recipientList (to data)). \<forall>e.
        logEmailActivity env (failureEntry env data sid e r) = None) \<longrightarrow>
      (\<exists>res w1. sendEmail env data sid w = (Inr res, w1)
         \<and> (\<forall>e w'. sendEmailTry env data sid w = (Inl e, w') \<longrightarrow>
               res = \<lparr>success = False, message = Some (errorText e)\<rparr>)))
   \<and> (sendEmailTry env data sid w = (Inl e, w')
        \<and> (\<exists>r \<in> set (recipientList (to data)).
              logEmailActivity env (failureEntry env data sid e r) \<noteq> None) \<longrightarrow>
      (\<exists>e2. fst (sendEmail env data sid w) = Inl e2))"
proof (intro conjI impI)
  assume ok: "\<forall>r \<in> set (recipientList (to data)). \<forall>e.
        logEmailActivity env (failureEntry env data sid e r) = None"
  obtain r w1 where t: "sendEmailTry env data sid w = (r, w1)"
    by (cases "sendEmailTry env data sid w")
  show "\<exists>res w1. sendEmail env data sid w = (Inr res, w1)
         \<and> (\<forall>e w'. sendEmailTry env data sid w = (Inl e, w') \<longrightarrow>
               res = \<lparr>success = False, message = Some (errorText e)\<rparr>)"
  proof (cases r)
    case (Inr res)
    with t sendEmail_passes [of env data sid w res w1] show ?thesis by simp
  next
    case (Inl e)
    from ok have "\<forall>entry \<in> set (map (failureEntry env data sid e) (recipientList (to data))).
        logEmailActivity env entry = None" by simp
    from logEach_accepts [OF this, of w1] t Inl sendEmail_handler [of env data sid w e w1]
    show ?thesis by simp
  qed
next
  assume a: "sendEmailTry env data sid w = (Inl e, w')
        \<and> (\<exists>r \<in> set (recipientList (to data)).
              logEmailActivity env (failureEntry env data sid e r) \<noteq> None)"
  obtain lr w2 where l: "logEach env (map (failureEntry env data sid e) (recipientList (to data))) w' = (lr, w2)"
    by (cases "logEach env (map (failureEntry env data sid e) (recipientList (to data))) w'")
  from a have "\<not> (\<forall>entry \<in> set (map (failureEntry env data sid e) (recipientList (to data))).
      logEmailActivity env entry = None)" by auto
  with logEach_None_iff [of env "map (failureEntry env data sid e) (recipientList (to data))" w'] l
  obtain e2 where "lr = Some e2" by (cases lr) auto
  with a l sendEmail_handler [of env data sid w e w'] show "\<exists>e2. fst (sendEmail env data sid w) = Inl e2"
    by simp
qed

theorem sendEmail_raises_only_from_handler_witness:
  "recipientList (to helloData) = [bobRecipient]
   \<and> (\<forall>e. logEmailActivity bounceEnv (failureEntry bounceEnv helloData None e bobRecipient) = None)
   \<and> fst (sendEmail bounceEnv helloData None world0)
        = Inr \<lparr>success = False, message = Some ''connection refused''\<rparr>
   \<and> logEmailActivity logDownEnv
        (failureEntry logDownEnv helloData None (Error ''log unavailable'') bobRecipient)
        = Some (Error ''log unavailable'')
   \<and> (\<exists>e2. fst (sendEmail logDownEnv helloData None world0) = Inl e2)"
proof -
  have h: "\<forall>r \<in> set (recipientList (to helloData)). \<forall>e.
        logEmailActivity bounceEnv (failureEntry bounceEnv helloData None e r) = None"
    by (simp add: sample_defs)
  have t: "fst (sendEmailTry bounceEnv helloData None world0) = Inl (Error ''connection refused'')"
    by (simp add: send_defs sample_defs)
  then obtain w' where t': "sendEmailTry bounceEnv helloData None world0 = (Inl (Error ''connection refused''), w')"
    by (cases "sendEmailTry bounceEnv helloData None world0") simp
  have t2: "fst (sendEmailTry logDownEnv helloData None world0) = Inl (Error ''log unavailable'')"
    by (simp add: send_defs sample_defs)
  then obtain w2 where t2': "sendEmailTry logDownEnv helloData None world0 = (Inl (Error ''log unavailable''), w2)"
    by (cases "sendEmailTry logDownEnv helloData None world0") simp
  have h2: "\<exists>r \<in> set (recipientList (to helloData)).
          logEmailActivity logDownEnv (failureEntry logDownEnv helloData None (Error ''log unavailable'') r) \<noteq> None"
    by (simp add: sample_defs)
  from sendEmail_raises_only_from_handler [of helloData bounceEnv None world0] h t'
  have "fst (sendEmail bounceEnv helloData None world0)
        = Inr \<lparr>success = False, message = Some ''connection refused''\<rparr>"
    by (auto simp: errorText_def)
  moreover from sendEmail_raises_only_from_handler [of helloData logDownEnv None world0 "Error ''log unavailable''" w2] t2' h2
  have "\<exists>e2. fst (sendEmail logDownEnv helloData None world0) = Inl e2" by blast
  ultimately show ?thesis by (simp add: sample_defs)
qed


text \<open>
  C4 as stated fails: when every log write throws, \<^verbatim>\<open>sendEmail\<close> throws the error of the
  log write made by its handler.
\<close>

theorem sendEmail_raises_when_log_down:
  "fst (sendEmail logDownEnv helloData None world0) = Inl (Error ''log unavailable'')"
  by (simp add: send_defs sample_defs)

subsection \<open>Delivery and the log\<close>

lemma sendEmail_delivered_logged:
  assumes "createTransport env sid (smtpConfig data) = Inr tr"
    and "resolveSmtpConfig env data sid = Inr (Some cfg)"
    and "generateEmailContent env (templateId data) (templateData data) (subject data) (body data) w
           = (Inr (subj, bdy0), w1)"
    and "withImages env data bdy0 = Inr bdy"
    and "sendMail env tr (mailOptionsOf data cfg subj bdy) = Inr mid"
    and acc: "\<forall>r \<in> set (recipientList (to data)).
           logEmailActivity env (successEntry env data cfg subj mid r) = None"
  shows "fst (sendEmail env data sid w)
           = Inr \<lparr>success = True, message = Some (''Message sent: '' @ mid)\<rparr>"
proof -
  let ?entries = "map (successEntry env data cfg subj mid) (recipientList (to data))"
  let ?w2 = "w1\<lparr>outbox := outbox w1 @ [(tr, mailOptionsOf data cfg subj bdy)]\<rparr>"
  have tryEq: "sendEmailTry env data sid w = afterDelivery env data cfg subj mid ?w2"
    by (rule sendEmailTry_delivered [OF assms(1-5)])
  from acc have "\<forall>entry \<in> set ?entries. logEmailActivity env entry = None" by simp
  from logEach_accepts [OF this, of ?w2]
  have "fst (sendEmailTry env data sid w)
          = Inr \<lparr>success = True, message = Some (''Message sent: '' @ mid)\<rparr>"
    by (simp add: tryEq afterDelivery_def)
  then show ?thesis
    by (cases "sendEmailTry env data sid w") (simp add: sendEmail_def)
qed

lemma sendEmail_delivered_rejected:
  assumes "createTransport env sid (smtpConfig data) = Inr tr"
    and "resolveSmtpConfig env data sid = Inr (Some cfg)"
    and "generateEmailContent env (templateId data) (templateData data) (subject data) (body data) w
           = (Inr (subj, bdy0), w1)"
    and "withImages env data bdy0 = Inr bdy"
    and "sendMail env tr (mailOptionsOf data cfg subj bdy) = Inr mid"
    and rej: "\<exists>r \<in> set (recipientList (to data)).
           logEmailActivity env (successEntry env data cfg subj mid r) \<noteq> None"
  shows "\<exists>e w3. sendEmailTry env data sid w = (Inl e, w3)
           \<and> (\<exists>r \<in> set (recipientList (to data)).
                 logEmailActivity env (successEntry env data cfg subj mid r) = Some e)"
proof -
  let ?entries = "map (successEntry env data cfg subj mid) (recipientList (to data))"
  let ?w2 = "w1\<lparr>outbox := outbox w1 @ [(tr, mailOptionsOf data cfg subj bdy)]\<rparr>"
  have tryEq: "sendEmailTry env data sid w = afterDelivery env data cfg subj mid ?w2"
    by (rule sendEmailTry_delivered [OF assms(1-5)])
  from rej have "\<not> (\<forall>entry \<in> set ?entries. logEmailActivity env entry = None)" by auto
  with logEach_None_iff [of env ?entries ?w2]
  obtain e w3 where l: "logEach env ?entries ?w2 = (Some e, w3)"
    by (cases "logEach env ?entries ?w2") auto
  then have "sendEmailTry env data sid w = (Inl e, w3)"
    by (simp add: tryEq afterDelivery_def)
  moreover from logEach_rejects [OF l]
  have "\<exists>r \<in> set (recipientList (to data)).
          logEmailActivity env (successEntry env data cfg subj mid r) = Some e"
    by auto
  ultimately show ?thesis by blast
qed

text \<open>
  C5, as the code has it. When the delivery call succeeds, \<^verbatim>\<open>sendEmail\<close> returns
  \<^verbatim>\<open>{ success: true, message: 'Message sent: <id>' }\<close> if the log accepts the success
  entry of every recipient. If the log rejects one of them, the error goes to the handler
  of \<^verbatim>\<open>sendEmail\<close>, and no successful result is returned.
\<close>

theorem sendEmail_success_depends_on_log:
  "createTransport env sid (smtpConfig data) = Inr tr
   \<and> resolveSmtpConfig env data sid = Inr (Some cfg)
   \<and> generateEmailContent env (templateId data) (templateData data) (subject data) (body data) w
        = (Inr (subj, bdy0), w1)
   \<and> withImages env data bdy0 = Inr bdy
   \<and> sendMail env tr (mailOptionsOf data cfg subj bdy) = Inr mid
   \<longrightarrow>
     ((\<forall>r \<in> set (recipientList (to data)).
          logEmailActivity env (successEntry env data cfg subj mid r) = None) \<longrightarrow>
        fst (sendEmail env data sid w)
          = Inr \<lparr>success = True, message = Some (''Message sent: '' @ mid)\<rparr>)
   \<and> ((\<exists>r \<in> set (recipientList (to data)).
          logEmailActivity env (successEntry env data cfg subj mid r) \<noteq> None) \<longrightarrow>
        (\<forall>res. fst (sendEmail env data sid w) = Inr res \<longrightarrow> \<not> success res))"
proof (intro impI, elim conjE)
  assume d: "createTransport env sid (smtpConfig data) = Inr tr"
    "resolveSmtpConfig env data sid = Inr (Some cfg)"
    "generateEmailContent env (templateId data) (templateData data) (subject data) (body data) w
        = (Inr (subj, bdy0), w1)"
    "withImages env data bdy0 = Inr bdy"
    "sendMail env tr (mailOptionsOf data cfg subj bdy) = Inr mid"
  have accepted: "fst (sendEmail env data sid w)
          = Inr \<lparr>success = True, message = Some (''Message sent: '' @ mid)\<rparr>"
    if "\<forall>r \<in> set (recipientList (to data)).
          logEmailActivity env (successEntry env data cfg subj mid r) = None"
    using d that by (rule sendEmail_delivered_logged)
  have rejected: "\<forall>res. fst (sendEmail env data sid w) = Inr res \<longrightarrow> \<not> success res"
    if "\<exists>r \<in> set (recipientList (to data)).
          logEmailActivity env (successEntry env data cfg subj mid r) \<noteq> None"
  proof -
    from sendEmail_delivered_rejected [OF d that]
    obtain e w3 where t: "sendEmailTry env data sid w = (Inl e, w3)" by blast
    show ?thesis
      using sendEmail_handler [OF t] by (auto split: prod.splits option.splits)
  qed
  from accepted rejected
  show "((\<forall>r \<in> set (recipientList (to data)).
          logEmailActivity env (successEntry env data cfg subj mid r) = None) \<longrightarrow>
        fst (sendEmail env data sid w)
          = Inr \<lparr>success = True, message = Some (''Message sent: '' @ mid)\<rparr>)
   \<and> ((\<exists>r \<in> set (recipientList (to data)).
          logEmailActivity env (successEntry env data cfg subj mid r) \<noteq> None) \<longrightarrow>
        (\<forall>res. fst (sendEmail env data sid w) = Inr res \<longrightarrow> \<not> success res))"
    by blast
qed

theorem sendEmail_success_depends_on_log_witness:
  "createTransport goodEnv None (smtpConfig helloData) = Inr transportA
   \<and> resolveSmtpConfig goodEnv helloData None = Inr (Some (Stored storedA))
   \<and> generateEmailContent goodEnv (templateId helloData) (templateData helloData)
        (subject helloData) (body helloData) world0 = (Inr (''Hello'', ''<p>Hello</p>''), world0)
   \<and> withImages goodEnv helloData ''<p>Hello</p>'' = Inr ''<p>Hello</p>''
   \<and> sendMail goodEnv transportA (mailOptionsOf helloData (Stored storedA) ''Hello'' ''<p>Hello</p>'') = Inr ''MID1''
   \<and> recipientList (to helloData) = [bobRecipient]
   \<and> logEmailActivity goodEnv (successEntry goodEnv helloData (Stored storedA) ''Hello'' ''MID1'' bobRecipient) = None
   \<and> fst (sendEmail goodEnv helloData None world0)
        = Inr \<lparr>success = True, message = Some ''Message sent: MID1''\<rparr>
   \<and> logEmailActivity logPickyEnv (successEntry logPickyEnv helloData (Stored storedA) ''Hello'' ''MID1'' bobRecipient)
        = Some (Error ''log unavailable'')
   \<and> (\<nexists>res. fst (sendEmail logPickyEnv helloData None world0) = Inr res \<and> success res)"
proof -
  have g: "createTransport goodEnv None (smtpConfig helloData) = Inr transportA"
    "resolveSmtpConfig goodEnv helloData None = Inr (Some (Stored storedA))"
    "generateEmailContent goodEnv (templateId helloData) (templateData helloData)
        (subject helloData) (body helloData) world0 = (Inr (''Hello'', ''<p>Hello</p>''), world0)"
    "withImages goodEnv helloData ''<p>Hello</p>'' = Inr ''<p>Hello</p>''"
    "sendMail goodEnv transportA (mailOptionsOf helloData (Stored storedA) ''Hello'' ''<p>Hello</p>'') = Inr ''MID1''"
    by (simp_all add: send_defs sample_defs transportA_def)
  have gl: "\<forall>r \<in> set (recipientList (to helloData)).
          logEmailActivity goodEnv (successEntry goodEnv helloData (Stored storedA) ''Hello'' ''MID1'' r) = None"
    by (simp add: sample_defs)
  have p: "createTransport logPickyEnv None (smtpConfig helloData) = Inr transportA"
    "resolveSmtpConfig logPickyEnv helloData None = Inr (Some (Stored storedA))"
    "generateEmailContent logPickyEnv (templateId helloData) (templateData helloData)
        (subject helloData) (body helloData) world0 = (Inr (''Hello'', ''<p>Hello</p>''), world0)"
    "withImages logPickyEnv helloData ''<p>Hello</p>'' = Inr ''<p>Hello</p>''"
    "sendMail logPickyEnv transportA (mailOptionsOf helloData (Stored storedA) ''Hello'' ''<p>Hello</p>'') = Inr ''MID1''"
    by (simp_all add: send_defs sample_defs transportA_def)
  have pl: "\<exists>r \<in> set (recipientList (to helloData)).
          logEmailActivity logPickyEnv (successEntry logPickyEnv helloData (Stored storedA) ''Hello'' ''MID1'' r) \<noteq> None"
    by (simp add: sample_defs successEntry_def)
  from sendEmail_success_depends_on_log [of goodEnv None helloData transportA "Stored storedA" world0
      "''Hello''" "''<p>Hello</p>''" world0 "''<p>Hello</p>''" "''MID1''"] g gl
  have 1: "fst (sendEmail goodEnv helloData None world0)
        = Inr \<lparr>success = True, message = Some ''Message sent: MID1''\<rparr>" by simp
  from sendEmail_success_depends_on_log [of logPickyEnv None helloData transportA "Stored storedA" world0
      "''Hello''" "''<p>Hello</p>''" world0 "''<p>Hello</p>''" "''MID1''"] p pl
  have 2: "\<forall>res. fst (sendEmail logPickyEnv helloData None world0) = Inr res \<longrightarrow> \<not> success res"
    by blast
  have "recipientList (to helloData) = [bobRecipient]"
    "logEmailActivity goodEnv (successEntry goodEnv helloData (Stored storedA) ''Hello'' ''MID1'' bobRecipient) = None"
    "logEmailActivity logPickyEnv (successEntry logPickyEnv helloData (Stored storedA) ''Hello'' ''MID1'' bobRecipient)
        = Some (Error ''log unavailable'')"
    by (simp_all add: sample_defs successEntry_def)
  with g 1 2 show ?thesis by blast
qed


text \<open>
  C5 as stated fails: the transport accepts the message and returns the id \<^verbatim>\<open>MID1\<close>, the
  log rejects the success entry, and \<^verbatim>\<open>sendEmail\<close> returns \<^verbatim>\<open>success: false\<close> with the
  error of the log.
\<close>

theorem log_failure_turns_delivered_send_into_failure:
  "sendMail logPickyEnv transportA (mailOptionsOf helloData (Stored storedA) ''Hello'' ''<p>Hello</p>'') = Inr ''MID1''
   \<and> outbox (snd (sendEmail logPickyEnv helloData None world0))
        = [(transportA, mailOptionsOf helloData (Stored storedA) ''Hello'' ''<p>Hello</p>'')]
   \<and> fst (sendEmail logPickyEnv helloData None world0)
        = Inr \<lparr>success = False, message = Some ''log unavailable''\<rparr>"
  by (simp add: send_defs sample_defs transportA_def)



subsection \<open>A template that is not found\<close>

lemma logEach_keeps:
  "logEach env entries w = (r, w1) \<Longrightarrow> outbox w1 = outbox w \<and> warnings w1 = warnings w"
  using logEach_world [of env entries w r w1] by auto

lemma sendEmail_keeps:
  assumes "sendEmailTry env data sid w = (r, w1)"
  shows "outbox (snd (sendEmail env data sid w)) = outbox w1
       \<and> warnings (snd (sendEmail env data sid w)) = warnings w1"
proof (cases r)
  case (Inr res)
  with assms show ?thesis by (simp add: sendEmail_def)
next
  case (Inl e)
  obtain lr w2 where l: "logEach env (map (failureEntry env data sid e) (recipientList (to data))) w1 = (lr, w2)"
    by (cases "logEach env (map (failureEntry env data sid e) (recipientList (to data))) w1")
  from assms Inl l have "snd (sendEmail env data sid w) = w2"
    by (auto simp: sendEmail_def split: option.splits)
  with logEach_keeps [OF l] show ?thesis by simp
qed

lemma generateEmailContent_missing:
  assumes "supplied tidOpt = Some tid" and "getEmailTemplates env = Inr templates"
    and "(tid \<noteq> ''default'' \<and> (\<forall>t \<in> set templates. tplId t \<noteq> tid))
         \<or> (tid = ''default'' \<and> getDefaultEmailTemplate env = Inr None)"
  shows "generateEmailContent env tidOpt td subj bdy w
           = (Inr (subj, bdy), w\<lparr>warnings := warnings w @ [templateWarning tid]\<rparr>)"
proof -
  have "find (\<lambda>t. tplId t = tid) templates = None" if "\<forall>t \<in> set templates. tplId t \<noteq> tid"
    using that by (simp add: find_None_iff)
  with assms show ?thesis
    by (auto simp: generateEmailContent_def)
qed

text \<open>
  C8. The request names a template, the template store answers, and it has no template
  with that id (or no default template, when the id is \<^verbatim>\<open>default\<close>). Then
  \<^verbatim>\<open>generateEmailContent\<close> returns the literal subject and body of the request and the
  only trace is a line of \<^verbatim>\<open>console.warn\<close>. In \<^verbatim>\<open>sendEmail\<close> the message handed to the
  transport has the literal subject and the literal body (after the images, if any), and
  the send succeeds when the delivery and the log writes do.
\<close>

theorem missing_template_falls_back:
  "supplied (templateId data) = Some tid \<and> getEmailTemplates env = Inr templates
   \<and> ((tid \<noteq> ''default'' \<and> (\<forall>t \<in> set templates. tplId t \<noteq> tid))
       \<or> (tid = ''default'' \<and> getDefaultEmailTemplate env = Inr None))
   \<longrightarrow>
     generateEmailContent env (templateId data) (templateData data) (subject data) (body data) w
       = (Inr (subject data, body data), w\<lparr>warnings := warnings w @ [templateWarning tid]\<rparr>)
   \<and> (createTransport env sid (smtpConfig data) = Inr tr
        \<and> resolveSmtpConfig env data sid = Inr (Some cfg)
        \<and> withImages env data (body data) = Inr bdy
      \<longrightarrow>
        outbox (snd (sendEmail env data sid w))
          = outbox w @ [(tr, mailOptionsOf data cfg (subject data) bdy)]
      \<and> warnings (snd (sendEmail env data sid w)) = warnings w @ [templateWarning tid]
      \<and> (sendMail env tr (mailOptionsOf data cfg (subject data) bdy) = Inr mid
           \<and> (\<forall>r \<in> set (recipientList (to data)).
                logEmailActivity env (successEntry env data cfg (subject data) mid r) = None)
         \<longrightarrow> fst (sendEmail env data sid w)
               = Inr \<lparr>success = True, message = Some (''Message sent: '' @ mid)\<rparr>))"
proof (intro impI, elim conjE)
  let ?w1 = "w\<lparr>warnings := warnings w @ [templateWarning tid]\<rparr>"
  let ?opts = "mailOptionsOf data cfg (subject data) bdy"
  assume a: "supplied (templateId data) = Some tid" "getEmailTemplates env = Inr templates"
    "(tid \<noteq> ''default'' \<and> (\<forall>t \<in> set templates. tplId t \<noteq> tid))
       \<or> (tid = ''default'' \<and> getDefaultEmailTemplate env = Inr None)"
  have gen: "generateEmailContent env (templateId data) (templateData data) (subject data) (body data) w
       = (Inr (subject data, body data), ?w1)"
    by (rule generateEmailContent_missing [OF a])
  have send: "outbox (snd (sendEmail env data sid w)) = outbox w @ [(tr, ?opts)]
      \<and> warnings (snd (sendEmail env data sid w)) = warnings w @ [templateWarning tid]
      \<and> (sendMail env tr ?opts = Inr mid
           \<and> (\<forall>r \<in> set (recipientList (to data)).
                logEmailActivity env (successEntry env data cfg (subject data) mid r) = None)
         \<longrightarrow> fst (sendEmail env data sid w)
               = Inr \<lparr>success = True, message = Some (''Message sent: '' @ mid)\<rparr>)"
    if b: "createTransport env sid (smtpConfig data) = Inr tr"
      "resolveSmtpConfig env data sid = Inr (Some cfg)"
      "withImages env data (body data) = Inr bdy"
  proof -
    let ?w2 = "?w1\<lparr>outbox := outbox ?w1 @ [(tr, ?opts)]\<rparr>"
    obtain r w3 where t: "sendEmailTry env data sid w = (r, w3)"
      by (cases "sendEmailTry env data sid w")
    have w3: "outbox w3 = outbox w @ [(tr, ?opts)] \<and> warnings w3 = warnings w @ [templateWarning tid]"
    proof (cases "sendMail env tr ?opts")
      case (Inl e)
      with b gen t show ?thesis by (auto simp: sendEmailTry_def Let_def)
    next
      case (Inr m)
      from sendEmailTry_delivered [OF b(1) b(2) gen b(3) Inr] t
      have "afterDelivery env data cfg (subject data) m ?w2 = (r, w3)" by simp
      from afterDelivery_world [OF this] show ?thesis by auto
    qed
    have ok: "fst (sendEmail env data sid w) = Inr \<lparr>success = True, message = Some (''Message sent: '' @ mid)\<rparr>"
      if c: "sendMail env tr ?opts = Inr mid"
        "\<forall>r \<in> set (recipientList (to data)).
                logEmailActivity env (successEntry env data cfg (subject data) mid r) = None"
      using b(1,2) gen b(3) c by (rule sendEmail_delivered_logged)
    from sendEmail_keeps [OF t] w3 ok show ?thesis by simp
  qed
  from gen send
  show "generateEmailContent env (templateId data) (templateData data) (subject data) (body data) w
       = (Inr (subject data, body data), ?w1)
   \<and> (createTransport env sid (smtpConfig data) = Inr tr
        \<and> resolveSmtpConfig env data sid = Inr (Some cfg)
        \<and> withImages env data (body data) = Inr bdy
      \<longrightarrow>
        outbox (snd (sendEmail env data sid w)) = outbox w @ [(tr, ?opts)]
      \<and> warnings (snd (sendEmail env data sid w)) = warnings w @ [templateWarning tid]
      \<and> (sendMail env tr ?opts = Inr mid
           \<and> (\<forall>r \<in> set (recipientList (to data)).
                logEmailActivity env (successEntry env data cfg (subject data) mid r) = None)
         \<longrightarrow> fst (sendEmail env data sid w)
               = Inr \<lparr>success = True, message = Some (''Message sent: '' @ mid)\<rparr>))"
    by blast
qed

theorem missing_template_falls_back_witness:
  "supplied (templateId missingData) = Some ''nope''
   \<and> getEmailTemplates goodEnv = Inr [greeting]
   \<and> tplId greeting \<noteq> ''nope''
   \<and> fst (sendEmail goodEnv missingData None world0)
        = Inr \<lparr>success = True, message = Some ''Message sent: MID1''\<rparr>
   \<and> map (mailSubject \<circ> snd) (outbox (snd (sendEmail goodEnv missingData None world0))) = [''Hello'']
   \<and> map (html \<circ> snd) (outbox (snd (sendEmail goodEnv missingData None world0))) = [''<p>Hello</p>'']
   \<and> warnings (snd (sendEmail goodEnv missingData None world0))
        = [''Template with ID nope not found. Using provided subject and body.'']"
proof -
  have h: "supplied (templateId missingData) = Some ''nope''" "getEmailTemplates goodEnv = Inr [greeting]"
    "(''nope'' \<noteq> ''default'' \<and> (\<forall>t \<in> set [greeting]. tplId t \<noteq> ''nope''))
       \<or> (''nope'' = ''default'' \<and> getDefaultEmailTemplate goodEnv = Inr None)"
    "tplId greeting \<noteq> ''nope''"
    by (simp_all add: sample_defs supplied_def)
  have g: "createTransport goodEnv None (smtpConfig missingData) = Inr transportA"
    "resolveSmtpConfig goodEnv missingData None = Inr (Some (Stored storedA))"
    "withImages goodEnv missingData (body missingData) = Inr ''<p>Hello</p>''"
    "sendMail goodEnv transportA (mailOptionsOf missingData (Stored storedA) (subject missingData) ''<p>Hello</p>'') = Inr ''MID1''"
    "\<forall>r \<in> set (recipientList (to missingData)).
        logEmailActivity goodEnv (successEntry goodEnv missingData (Stored storedA) (subject missingData) ''MID1'' r) = None"
    by (simp_all add: send_defs sample_defs transportA_def)
  from missing_template_falls_back [of missingData "''nope''" goodEnv "[greeting]" world0 None transportA
      "Stored storedA" "''<p>Hello</p>''" "''MID1''"] h(1-3) g
  have "outbox (snd (sendEmail goodEnv missingData None world0))
          = outbox world0 @ [(transportA, mailOptionsOf missingData (Stored storedA) (subject missingData) ''<p>Hello</p>'')]"
    "warnings (snd (sendEmail goodEnv missingData None world0)) = warnings world0 @ [templateWarning ''nope'']"
    "fst (sendEmail goodEnv missingData None world0)
        = Inr \<lparr>success = True, message = Some (''Message sent: '' @ ''MID1'')\<rparr>"
    by blast+
  with h show ?thesis
    by (simp add: world0_def templateWarning_def mailOptionsOf_def missingData_def helloData_def)
qed

section \<open>sendBulkEmails: results\<close>

subsection \<open>The two parts of a send\<close>

lemma sendEmail_parts:
  "sendEmail env data sid w
     = finishSend env data sid (fst (startSend env data sid w)) (snd (startSend env data sid w))"
  by (auto simp: sendEmail_def sendEmailTry_def startSend_def finishSend_def catchBlock_def
      notFoundResult_def Let_def split: sum.splits option.splits prod.splits)

lemma startSend_fst:
  "fst (startSend env data sid w) = fst (startSend env data sid w')"
proof -
  obtain g w1 where g: "generateEmailContent env (templateId data) (templateData data)
      (subject data) (body data) w = (g, w1)"
    by (cases "generateEmailContent env (templateId data) (templateData data) (subject data) (body data) w")
  obtain g' w1' where g': "generateEmailContent env (templateId data) (templateData data)
      (subject data) (body data) w' = (g', w1')"
    by (cases "generateEmailContent env (templateId data) (templateData data) (subject data) (body data) w'")
  from generateEmailContent_fst [of env "templateId data" "templateData data" "subject data" "body data" w w'] g g'
  have gg: "g' = g" by simp
  show ?thesis
    using g g' gg
    by (auto simp: startSend_def Let_def split: sum.splits option.splits prod.splits)
qed

lemma startSend_world:
  "emailLog (snd (startSend env data sid w)) = emailLog w
   \<and> logCalls (snd (startSend env data sid w)) = logCalls w"
proof -
  obtain g w1 where g: "generateEmailContent env (templateId data) (templateData data)
      (subject data) (body data) w = (g, w1)"
    by (cases "generateEmailContent env (templateId data) (templateData data) (subject data) (body data) w")
  from generateEmailContent_world [OF g] g show ?thesis
    by (auto simp: startSend_def Let_def split: sum.splits option.splits prod.splits)
qed

lemma startSend_not_returned:
  "fst (startSend env data sid w) \<noteq> Returned res"
proof (cases "createTransport env sid (smtpConfig data)")
  case (Inl e)
  then show ?thesis by (simp add: startSend_def)
next
  case (Inr tr)
  from createTransport_resolves [OF this] obtain cfg
    where "resolveSmtpConfig env data sid = Inr (Some cfg)" by blast
  with Inr show ?thesis
    by (auto simp: startSend_def Let_def split: sum.splits prod.splits)
qed

lemma catchBlock_fst:
  "fst (catchBlock env data sid e w) = fst (catchBlock env data sid e w')"
  using logEach_fst [of env "map (failureEntry env data sid e) (recipientList (to data))" w w']
  by (auto simp: catchBlock_def split: prod.splits option.splits)

lemma finishSend_fst:
  "fst (finishSend env data sid p w) = fst (finishSend env data sid p w')"
proof (cases p)
  case (Threw e)
  then show ?thesis using catchBlock_fst [of env data sid e w w'] by (simp add: finishSend_def)
next
  case (Returned res)
  then show ?thesis by (simp add: finishSend_def)
next
  case (Delivered cfg subj mid)
  obtain a w1 where a: "afterDelivery env data cfg subj mid w = (a, w1)"
    by (cases "afterDelivery env data cfg subj mid w")
  obtain a' w1' where a': "afterDelivery env data cfg subj mid w' = (a', w1')"
    by (cases "afterDelivery env data cfg subj mid w'")
  have "fst (afterDelivery env data cfg subj mid w) = fst (afterDelivery env data cfg subj mid w')"
    using logEach_fst [of env "map (successEntry env data cfg subj mid) (recipientList (to data))" w w']
    by (auto simp: afterDelivery_def split: prod.splits option.splits)
  with a a' have aa: "a' = a" by simp
  show ?thesis
  proof (cases a)
    case (Inl e)
    with Delivered a a' aa catchBlock_fst [of env data sid e w1 w1'] show ?thesis
      by (simp add: finishSend_def)
  next
    case (Inr res)
    with Delivered a a' aa show ?thesis by (simp add: finishSend_def)
  qed
qed

lemma finishSend_pending:
  "fst (finishSend env data sid (fst (startSend env data sid w0)) w)
     = fst (sendEmail env data sid world0)"
proof -
  have "fst (sendEmail env data sid world0)
          = fst (finishSend env data sid (fst (startSend env data sid world0)) w)"
    by (simp only: sendEmail_parts) (rule finishSend_fst)
  also have "fst (startSend env data sid world0) = fst (startSend env data sid w0)"
    by (rule startSend_fst)
  finally show ?thesis by simp
qed

text \<open>
  The sends of one bulk request reach the delivery through the same awaits: either each
  of them hands its message to the transport, or none does.
\<close>

lemma generateEmailContent_stage:
  "isl (fst (generateEmailContent env tid td subj bdy w))
     = isl (fst (generateEmailContent env tid td' subj bdy w'))"
  by (auto simp: generateEmailContent_def split: option.splits sum.splits if_splits)

lemma startSend_same_stage:
  "length (outbox (snd (startSend env (singleData data r) sid w))) - length (outbox w)
     = length (outbox (snd (startSend env (singleData data r') sid w'))) - length (outbox w')"
proof -
  let ?d = "singleData data r" and ?d' = "singleData data r'"
  have f: "templateId ?d = bulkTemplateId data" "templateId ?d' = bulkTemplateId data"
    "subject ?d = bulkSubject data" "subject ?d' = bulkSubject data"
    "body ?d = bulkBody data" "body ?d' = bulkBody data"
    "smtpConfig ?d = bulkSmtpConfig data" "smtpConfig ?d' = bulkSmtpConfig data"
    by (simp_all add: singleData_def)
  have rs: "resolveSmtpConfig env ?d sid = resolveSmtpConfig env ?d' sid"
    by (simp add: resolveSmtpConfig_def singleData_def)
  have im: "withImages env ?d b = Inr b" "withImages env ?d' b = Inr b" for b
    by (simp_all add: withImages_def singleData_def)
  obtain g w1 where g: "generateEmailContent env (bulkTemplateId data) (templateData ?d)
      (bulkSubject data) (bulkBody data) w = (g, w1)"
    by (cases "generateEmailContent env (bulkTemplateId data) (templateData ?d)
      (bulkSubject data) (bulkBody data) w")
  obtain g' w1' where g': "generateEmailContent env (bulkTemplateId data) (templateData ?d')
      (bulkSubject data) (bulkBody data) w' = (g', w1')"
    by (cases "generateEmailContent env (bulkTemplateId data) (templateData ?d')
      (bulkSubject data) (bulkBody data) w'")
  from generateEmailContent_stage [of env "bulkTemplateId data" "templateData ?d" "bulkSubject data"
      "bulkBody data" w "templateData ?d'" w'] g g'
  have s: "isl g = isl g'" by simp
  from generateEmailContent_world [OF g] generateEmailContent_world [OF g']
  have o: "outbox w1 = outbox w" "outbox w1' = outbox w'" by simp_all
  show ?thesis
    using g g' s o
    by (auto simp: startSend_def f rs im Let_def split: sum.splits option.splits prod.splits)
qed

text \<open>
  When the log accepts every entry, a send awaits one log write for each of its
  recipients after the delivery, and each write stores an entry.
\<close>

lemma finishSend_logs:
  assumes acc: "\<forall>entry. logEmailActivity env entry = None"
    and p: "p = fst (startSend env data sid w0)"
  shows "\<exists>entries. emailLog (snd (finishSend env data sid p w)) = emailLog w @ entries
           \<and> map recipient entries = map email (recipientList (to data))
           \<and> logCalls (snd (finishSend env data sid p w)) = logCalls w + length (recipientList (to data))"
proof (cases p)
  case (Threw e)
  let ?entries = "map (failureEntry env data sid e) (recipientList (to data))"
  from acc have "\<forall>entry \<in> set ?entries. logEmailActivity env entry = None" by simp
  from logEach_accepts [OF this, of w] Threw
  have "snd (finishSend env data sid p w)
          = w\<lparr>emailLog := emailLog w @ ?entries, logCalls := logCalls w + length ?entries\<rparr>"
    by (simp add: finishSend_def catchBlock_def)
  then show ?thesis
    by (intro exI [of _ ?entries]) (simp add: failureEntry_def comp_def)
next
  case (Returned res)
  with p startSend_not_returned [of env data sid w0 res] show ?thesis by simp
next
  case (Delivered cfg subj mid)
  let ?entries = "map (successEntry env data cfg subj mid) (recipientList (to data))"
  from acc have "\<forall>entry \<in> set ?entries. logEmailActivity env entry = None" by simp
  from logEach_accepts [OF this, of w] Delivered
  have "snd (finishSend env data sid p w)
          = w\<lparr>emailLog := emailLog w @ ?entries, logCalls := logCalls w + length ?entries\<rparr>"
    by (simp add: finishSend_def afterDelivery_def)
  then show ?thesis
    by (intro exI [of _ ?entries]) (simp add: successEntry_def comp_def)
qed

text \<open>
  The number of log writes that remain for a send does not depend on the state of the
  world in which they are made.
\<close>

lemma logEach_calls:
  "logCalls (snd (logEach env entries w)) = logCalls w + logCalls (snd (logEach env entries world0))"
proof (induction entries arbitrary: w)
  case Nil
  show ?case by (simp add: world0_def)
next
  case (Cons entry entries)
  show ?case
  proof (cases "logEmailActivity env entry")
    case None
    from Cons.IH [of "w\<lparr>emailLog := emailLog w @ [entry], logCalls := Suc (logCalls w)\<rparr>"]
      Cons.IH [of "world0\<lparr>emailLog := emailLog world0 @ [entry], logCalls := Suc (logCalls world0)\<rparr>"]
      None
    show ?thesis by (simp add: world0_def)
  next
    case (Some e)
    then show ?thesis by (simp add: world0_def)
  qed
qed

lemma catchBlock_calls:
  "logCalls (snd (catchBlock env data sid e w))
     = logCalls w + logCalls (snd (catchBlock env data sid e world0))"
proof -
  have "snd (catchBlock env data sid e v)
          = snd (logEach env (map (failureEntry env data sid e) (recipientList (to data))) v)" for v
    by (simp add: catchBlock_def split: prod.splits option.splits)
  then show ?thesis
    using logEach_calls [of env "map (failureEntry env data sid e) (recipientList (to data))" w]
    by simp
qed

lemma writesLeft_any_world:
  "logCalls (snd (finishSend env (singleData data r) sid p w))
     = logCalls w + writesLeft env data sid (r, p)"
proof (cases p)
  case (Threw e)
  then show ?thesis
    using catchBlock_calls [of env "singleData data r" sid e w]
    by (simp add: writesLeft_def finishSend_def)
next
  case (Returned res)
  then show ?thesis by (simp add: writesLeft_def finishSend_def world0_def)
next
  case (Delivered cfg subj mid)
  let ?es = "map (successEntry env (singleData data r) cfg subj mid) (recipientList (to (singleData data r)))"
  obtain a w1 where a: "logEach env ?es w = (a, w1)" by (cases "logEach env ?es w")
  obtain a0 w0 where a0: "logEach env ?es world0 = (a0, w0)" by (cases "logEach env ?es world0")
  from logEach_fst [of env ?es w world0] a a0 have aa: "a0 = a" by simp
  from logEach_calls [of env ?es w] a a0 have c: "logCalls w1 = logCalls w + logCalls w0" by simp
  show ?thesis
  proof (cases a)
    case None
    with Delivered a a0 aa c show ?thesis
      by (simp add: writesLeft_def finishSend_def afterDelivery_def)
  next
    case (Some e)
    with Delivered a a0 aa c catchBlock_calls [of env "singleData data r" sid e w1]
      catchBlock_calls [of env "singleData data r" sid e w0]
    show ?thesis
      by (simp add: writesLeft_def finishSend_def afterDelivery_def)
  qed
qed

subsection \<open>One batch\<close>

lemma foldl_startOne:
  "fst (foldl (startOne env data sid) (ps, w) rs) = ps @ map (pendingOf env data sid) rs
   \<and> emailLog (snd (foldl (startOne env data sid) (ps, w) rs)) = emailLog w
   \<and> logCalls (snd (foldl (startOne env data sid) (ps, w) rs)) = logCalls w"
proof (induction rs arbitrary: ps w)
  case Nil
  show ?case by simp
next
  case (Cons r rs)
  obtain p w1 where s: "startSend env (singleData data r) sid w = (p, w1)"
    by (cases "startSend env (singleData data r) sid w")
  from startSend_fst [of env "singleData data r" sid w world0] s
  have p: "(r, p) = pendingOf env data sid r" by (simp add: pendingOf_def)
  from startSend_world [of env "singleData data r" sid w] s
  have w1: "emailLog w1 = emailLog w" "logCalls w1 = logCalls w" by simp_all
  have step: "startOne env data sid (ps, w) r = (ps @ [pendingOf env data sid r], w1)"
    using s p by (simp add: startOne_def)
  show ?case
    using Cons.IH [of "ps @ [pendingOf env data sid r]" w1] step w1 by simp
qed

lemma sort_key_map:
  "sort_key f (map g xs) = map g (sort_key (\<lambda>x. f (g x)) xs)"
proof (induction xs)
  case Nil
  show ?case by simp
next
  case (Cons x xs)
  have ins: "insort_key f (g x) (map g ys) = map g (insort_key (\<lambda>x. f (g x)) x ys)" for ys
    by (induction ys) simp_all
  from Cons show ?case by (simp add: ins)
qed

lemma runBatch_order:
  "runBatch env data sid t batch
     = foldl (finishOne env data sid)
         (t\<lparr>world := snd (foldl (startOne env data sid) ([], world t) batch)\<rparr>)
         (map (pendingOf env data sid) (completionOrder env data sid batch))"
proof -
  obtain ps w1 where s: "foldl (startOne env data sid) ([], world t) batch = (ps, w1)"
    by (cases "foldl (startOne env data sid) ([], world t) batch")
  with foldl_startOne [of env data sid "[]" "world t" batch]
  have ps: "ps = map (pendingOf env data sid) batch" by simp
  show ?thesis
    by (simp add: runBatch_def s ps completionOrder_def sort_key_map)
qed

lemma finishOne_tally:
  "sent (finishOne env data sid t (pendingOf env data sid r))
     = sent t + (if sentOk env data sid r then 1 else 0)
   \<and> map failEmail (failed (finishOne env data sid t (pendingOf env data sid r)))
       = map failEmail (failed t) @ (if sentOk env data sid r then [] else [email r])
   \<and> timeline (finishOne env data sid t (pendingOf env data sid r)) = timeline t"
proof -
  have "fst (finishSend env (singleData data r) sid
               (fst (startSend env (singleData data r) sid world0)) (world t))
          = fst (sendEmail env (singleData data r) sid world0)"
    by (rule finishSend_pending)
  then show ?thesis
    by (cases "finishSend env (singleData data r) sid
                 (fst (startSend env (singleData data r) sid world0)) (world t)")
       (auto simp: finishOne_def pendingOf_def sentOk_def split: sum.splits)
qed

lemma foldl_finishOne_tally:
  "sent (foldl (finishOne env data sid) t (map (pendingOf env data sid) rs))
     = sent t + length (filter (sentOk env data sid) rs)
   \<and> map failEmail (failed (foldl (finishOne env data sid) t (map (pendingOf env data sid) rs)))
       = map failEmail (failed t) @ map email (filter (\<lambda>r. \<not> sentOk env data sid r) rs)
   \<and> timeline (foldl (finishOne env data sid) t (map (pendingOf env data sid) rs)) = timeline t"
proof (induction rs arbitrary: t)
  case Nil
  show ?case by simp
next
  case (Cons r rs)
  show ?case
    using Cons.IH [of "finishOne env data sid t (pendingOf env data sid r)"]
      finishOne_tally [of env data sid t r]
    by simp
qed

text \<open>
  A batch counts the recipients whose send succeeded and adds one failure for each of the
  others. The failures are added in the order of completion.
\<close>

lemma runBatch_failed:
  "map failEmail (failed (runBatch env data sid t batch))
     = map failEmail (failed t)
       @ map email (filter (\<lambda>r. \<not> sentOk env data sid r) (completionOrder env data sid batch))"
  using foldl_finishOne_tally [of env data sid
      "t\<lparr>world := snd (foldl (startOne env data sid) ([], world t) batch)\<rparr>"
      "completionOrder env data sid batch"]
  by (simp add: runBatch_order)

lemma runBatch_tally:
  "sent (runBatch env data sid t batch) = sent t + length (filter (sentOk env data sid) batch)"
  "mset (map failEmail (failed (runBatch env data sid t batch)))
     = mset (map failEmail (failed t))
       + mset (map email (filter (\<lambda>r. \<not> sentOk env data sid r) batch))"
  "timeline (runBatch env data sid t batch) = timeline t"
proof -
  let ?t = "t\<lparr>world := snd (foldl (startOne env data sid) ([], world t) batch)\<rparr>"
  let ?rs = "completionOrder env data sid batch"
  note f = foldl_finishOne_tally [of env data sid ?t ?rs]
  have m: "mset ?rs = mset batch" by (simp add: completionOrder_def)
  have "length (filter (sentOk env data sid) ?rs) = size (filter_mset (sentOk env data sid) (mset ?rs))"
    by (simp only: mset_filter [symmetric] size_mset)
  also have "\<dots> = length (filter (sentOk env data sid) batch)"
    by (simp only: m mset_filter [symmetric] size_mset)
  finally show "sent (runBatch env data sid t batch) = sent t + length (filter (sentOk env data sid) batch)"
    using f by (simp add: runBatch_order)
  have "mset (map email (filter (\<lambda>r. \<not> sentOk env data sid r) ?rs))
          = image_mset email (filter_mset (\<lambda>r. \<not> sentOk env data sid r) (mset ?rs))"
    by simp
  also have "\<dots> = mset (map email (filter (\<lambda>r. \<not> sentOk env data sid r) batch))"
    by (simp only: m) simp
  finally show "mset (map failEmail (failed (runBatch env data sid t batch)))
     = mset (map failEmail (failed t))
       + mset (map email (filter (\<lambda>r. \<not> sentOk env data sid r) batch))"
    by (simp only: runBatch_failed mset_append)
  show "timeline (runBatch env data sid t batch) = timeline t"
    using f by (simp add: runBatch_order)
qed

lemma finishOne_timeline_update:
  "finishOne env data sid (t\<lparr>timeline := x\<rparr>) q = (finishOne env data sid t q)\<lparr>timeline := x\<rparr>"
  by (simp add: finishOne_def split: prod.splits sum.splits)

lemma foldl_finishOne_timeline_update:
  "foldl (finishOne env data sid) (t\<lparr>timeline := x\<rparr>) qs
     = (foldl (finishOne env data sid) t qs)\<lparr>timeline := x\<rparr>"
  by (induction qs arbitrary: t) (simp_all add: finishOne_timeline_update)

lemma runBatch_timeline_update:
  "runBatch env data sid (t\<lparr>timeline := x\<rparr>) batch = (runBatch env data sid t batch)\<lparr>timeline := x\<rparr>"
proof -
  obtain ps w1 where s: "foldl (startOne env data sid) ([], world t) batch = (ps, w1)"
    by (cases "foldl (startOne env data sid) ([], world t) batch")
  let ?qs = "sort_key (writesLeft env data sid) ps"
  have e: "t\<lparr>timeline := x, world := w1\<rparr> = (t\<lparr>world := w1\<rparr>)\<lparr>timeline := x\<rparr>"
    by simp
  have "runBatch env data sid (t\<lparr>timeline := x\<rparr>) batch
          = foldl (finishOne env data sid) (t\<lparr>timeline := x, world := w1\<rparr>) ?qs"
    by (simp add: runBatch_def s)
  also have "\<dots> = foldl (finishOne env data sid) ((t\<lparr>world := w1\<rparr>)\<lparr>timeline := x\<rparr>) ?qs"
    by (simp only: e)
  also have "\<dots> = (foldl (finishOne env data sid) (t\<lparr>world := w1\<rparr>) ?qs)\<lparr>timeline := x\<rparr>"
    by (rule foldl_finishOne_timeline_update)
  also have "foldl (finishOne env data sid) (t\<lparr>world := w1\<rparr>) ?qs = runBatch env data sid t batch"
    by (simp add: runBatch_def s)
  finally show ?thesis .
qed

lemma foldl_runBatch_timeline_update:
  "foldl (runBatch env data sid) (t\<lparr>timeline := x\<rparr>) bs
     = (foldl (runBatch env data sid) t bs)\<lparr>timeline := x\<rparr>"
  by (induction bs arbitrary: t) (simp_all add: runBatch_timeline_update)

lemma foldl_runBatch_tally:
  "sent (foldl (runBatch env data sid) t bs) = sent t + length (filter (sentOk env data sid) (concat bs))"
  "mset (map failEmail (failed (foldl (runBatch env data sid) t bs)))
     = mset (map failEmail (failed t))
       + mset (map email (filter (\<lambda>r. \<not> sentOk env data sid r) (concat bs)))"
  "timeline (foldl (runBatch env data sid) t bs) = timeline t"
proof (induction bs arbitrary: t)
  case Nil
  {
    case 1 show ?case by simp
  next
    case 2 show ?case by simp
  next
    case 3 show ?case by simp
  }
next
  case (Cons b bs)
  {
    case 1 show ?case
      using Cons.IH(1) [of "runBatch env data sid t b"] runBatch_tally(1) [of env data sid t b]
      by simp
  next
    case 2 show ?case
      using Cons.IH(2) [of "runBatch env data sid t b"] runBatch_tally(2) [of env data sid t b]
      by simp
  next
    case 3 show ?case
      using Cons.IH(3) [of "runBatch env data sid t b"] runBatch_tally(3) [of env data sid t b]
      by simp
  }
qed

subsection \<open>Log writes of a batch\<close>

text \<open>
  When the log accepts every entry, every send of a batch awaits one log write after the
  delivery, so the sends are completed in the order of the batch.
\<close>

lemma writesLeft_accepted:
  assumes acc: "\<forall>entry. logEmailActivity env entry = None"
  shows "writesLeft env data sid (pendingOf env data sid r) = 1"
  using finishSend_logs [OF acc, where p = "fst (startSend env (singleData data r) sid world0)"
      and data = "singleData data r" and sid = sid and ?w0.0 = world0 and w = world0]
  by (auto simp: writesLeft_def pendingOf_def singleData_def world0_def)

lemma completionOrder_accepted:
  assumes acc: "\<forall>entry. logEmailActivity env entry = None"
  shows "completionOrder env data sid batch = batch"
  by (simp add: completionOrder_def writesLeft_accepted [OF acc] sort_key_const)

lemma finishOne_world:
  "world (finishOne env data sid t q)
     = snd (finishSend env (singleData data (fst q)) sid (snd q) (world t))"
  by (simp add: finishOne_def split: prod.splits sum.splits)

lemma foldl_finishOne_logs:
  assumes acc: "\<forall>entry. logEmailActivity env entry = None"
  shows "\<exists>entries. emailLog (world (foldl (finishOne env data sid) t (map (pendingOf env data sid) rs)))
                      = emailLog (world t) @ entries
           \<and> map recipient entries = map email rs
           \<and> logCalls (world (foldl (finishOne env data sid) t (map (pendingOf env data sid) rs)))
               = logCalls (world t) + length rs"
proof (induction rs arbitrary: t)
  case Nil
  show ?case by simp
next
  case (Cons r rs)
  let ?t1 = "finishOne env data sid t (pendingOf env data sid r)"
  from finishSend_logs [OF acc, where p = "fst (startSend env (singleData data r) sid world0)"
      and data = "singleData data r" and sid = sid and ?w0.0 = world0 and w = "world t"]
  obtain e1 where e1: "emailLog (world ?t1) = emailLog (world t) @ e1"
    "map recipient e1 = [email r]"
    "logCalls (world ?t1) = logCalls (world t) + 1"
    by (auto simp: finishOne_world pendingOf_def singleData_def)
  from Cons.IH [of ?t1]
  obtain e2 where e2: "emailLog (world (foldl (finishOne env data sid) ?t1 (map (pendingOf env data sid) rs)))
        = emailLog (world ?t1) @ e2"
    "map recipient e2 = map email rs"
    "logCalls (world (foldl (finishOne env data sid) ?t1 (map (pendingOf env data sid) rs)))
        = logCalls (world ?t1) + length rs"
    by blast
  from e1 e2 show ?case
    by (intro exI [of _ "e1 @ e2"]) simp
qed

lemma runBatch_logs:
  assumes acc: "\<forall>entry. logEmailActivity env entry = None"
  shows "\<exists>entries. emailLog (world (runBatch env data sid t batch)) = emailLog (world t) @ entries
           \<and> map recipient entries = map email batch
           \<and> logCalls (world (runBatch env data sid t batch)) = logCalls (world t) + length batch"
proof -
  let ?w = "snd (foldl (startOne env data sid) ([], world t) batch)"
  have r: "runBatch env data sid t batch
      = foldl (finishOne env data sid) (t\<lparr>world := ?w\<rparr>) (map (pendingOf env data sid) batch)"
    by (simp only: runBatch_order completionOrder_accepted [OF acc])
  from foldl_startOne [of env data sid "[]" "world t" batch]
  have w: "emailLog ?w = emailLog (world t)" "logCalls ?w = logCalls (world t)" by simp_all
  from foldl_finishOne_logs [OF acc, of data sid "t\<lparr>world := ?w\<rparr>" batch] w
  show ?thesis by (simp only: r) simp
qed

lemma foldl_runBatch_logs:
  assumes acc: "\<forall>entry. logEmailActivity env entry = None"
  shows "\<exists>entries. emailLog (world (foldl (runBatch env data sid) t bs)) = emailLog (world t) @ entries
           \<and> map recipient entries = map email (concat bs)
           \<and> logCalls (world (foldl (runBatch env data sid) t bs))
               = logCalls (world t) + length (concat bs)"
proof (induction bs arbitrary: t)
  case Nil
  show ?case by simp
next
  case (Cons b bs)
  let ?t1 = "runBatch env data sid t b"
  from runBatch_logs [OF acc, of data sid t b]
  obtain e1 where e1: "emailLog (world ?t1) = emailLog (world t) @ e1"
    "map recipient e1 = map email b"
    "logCalls (world ?t1) = logCalls (world t) + length b"
    by blast
  from Cons.IH [of ?t1]
  obtain e2 where e2: "emailLog (world (foldl (runBatch env data sid) ?t1 bs)) = emailLog (world ?t1) @ e2"
    "map recipient e2 = map email (concat bs)"
    "logCalls (world (foldl (runBatch env data sid) ?t1 bs)) = logCalls (world ?t1) + length (concat bs)"
    by blast
  from e1 e2 show ?case
    by (intro exI [of _ "e1 @ e2"]) simp
qed

subsection \<open>Batches\<close>

lemma jsSlice_batch:
  "0 \<le> i \<Longrightarrow> 0 < b \<Longrightarrow> jsSlice xs i (i + b) = take (nat b) (drop (nat i) xs)"
  by (auto simp: jsSlice_def Let_def min_def nat_diff_distrib nat_add_distrib)

lemma batchesOf_Nil: "0 < k \<Longrightarrow> batchesOf k [] = []"
  by (simp add: batchesOf_def)

lemma count_step:
  fixes n k :: nat
  assumes "0 < k" and "0 < n"
  shows "(n + k - 1) div k = Suc ((n - k + k - 1) div k)"
proof -
  from assms have "n + k - 1 = (n - 1) + k" by arith
  then have "(n + k - 1) div k = ((n - 1) + k) div k" by (rule arg_cong)
  also have "\<dots> = Suc ((n - 1) div k)"
    using div_add_self2 [of k "n - 1"] assms(1) by simp
  also have "(n - 1) div k = (n - k + k - 1) div k"
  proof (cases "k \<le> n")
    case True
    then have "n - k + k - 1 = n - 1" by arith
    then show ?thesis by simp
  next
    case False
    with assms have "n - 1 < k" "n - k + k - 1 < k" by arith+
    then show ?thesis by simp
  qed
  finally show ?thesis .
qed

lemma batchesOf_Cons:
  assumes "0 < k" and "xs \<noteq> []"
  shows "batchesOf k xs = take k xs # batchesOf k (drop k xs)"
proof -
  from assms(2) have "0 < length xs" by simp
  from count_step [OF assms(1) this] show ?thesis by (simp add: batchesOf_def)
qed

lemma batchesOf_empty_iff: "0 < k \<Longrightarrow> batchesOf k xs = [] \<longleftrightarrow> xs = []"
proof (cases "xs = []")
  case True
  assume "0 < k"
  with True show ?thesis by (simp add: batchesOf_Nil)
next
  case False
  assume "0 < k"
  from batchesOf_Cons [OF this False] False show ?thesis by simp
qed

lemma pausedBetween_Cons:
  "pausedBetween d (b # bs) = Batch b # (if bs = [] then [] else Delay d # pausedBetween d bs)"
  by (cases bs) simp_all


subsection \<open>Batches of the specification\<close>

lemma concat_chunks:
  "length xs \<le> m * k \<Longrightarrow> concat (chunks m k xs) = xs"
proof (induction m arbitrary: xs)
  case 0
  then show ?case by simp
next
  case (Suc m)
  from Suc.prems have "length (drop k xs) \<le> m * k" by simp
  from Suc.IH [OF this] show ?case by simp
qed

lemma concat_batchesOf:
  assumes "0 < k"
  shows "concat (batchesOf k xs) = xs"
proof -
  have "length xs \<le> ((length xs + k - 1) div k) * k"
  proof -
    have "length xs + k - 1 = ((length xs + k - 1) div k) * k + (length xs + k - 1) mod k"
      by simp
    moreover have "(length xs + k - 1) mod k < k" using assms by simp
    ultimately show ?thesis by arith
  qed
  then show ?thesis unfolding batchesOf_def by (rule concat_chunks)
qed

lemma full_batches:
  assumes "0 < k"
  shows "b \<in> set (butlast (batchesOf k xs)) \<Longrightarrow> length b = k"
proof (induction xs arbitrary: b rule: length_induct)
  case (1 xs)
  show ?case
  proof (cases "xs = []")
    case True
    with assms 1(2) show ?thesis by (simp add: batchesOf_Nil)
  next
    case False
    note step = batchesOf_Cons [OF assms False]
    show ?thesis
    proof (cases "drop k xs = []")
      case True
      with step assms 1(2) show ?thesis by (simp add: batchesOf_Nil)
    next
      case more: False
      with assms have ne: "batchesOf k (drop k xs) \<noteq> []" by (simp add: batchesOf_empty_iff)
      from more have len: "k < length xs" by simp
      from 1(2) step ne have "b = take k xs \<or> b \<in> set (butlast (batchesOf k (drop k xs)))"
        by auto
      then show ?thesis
      proof
        assume "b = take k xs"
        with len show ?thesis by simp
      next
        assume "b \<in> set (butlast (batchesOf k (drop k xs)))"
        moreover from False assms have "length (drop k xs) < length xs" by simp
        ultimately show ?thesis using 1(1) by blast
      qed
    qed
  qed
qed

lemma batches_25_by_10:
  "length xs = 25 \<Longrightarrow> map length (batchesOf 10 xs) = [10, 10, 5]"
  by (simp add: batchesOf_def numeral_3_eq_3)


subsection \<open>The loop\<close>

lemma bulkLoop_run:
  assumes b: "0 < b"
  shows "0 \<le> i \<Longrightarrow> nat (int (length (recipients data)) - i) < fuel \<Longrightarrow>
     bulkLoop fuel env data sid b pause i t
       = Some ((foldl (runBatch env data sid) t (batchesOf (nat b) (drop (nat i) (recipients data))))
                 \<lparr>timeline := timeline t
                    @ pausedBetween pause (batchesOf (nat b) (drop (nat i) (recipients data)))\<rparr>)"
proof (induction fuel arbitrary: i t)
  case 0
  then show ?case by simp
next
  case (Suc fuel)
  let ?xs = "recipients data"
  let ?rest = "drop (nat i) ?xs"
  let ?f = "runBatch env data sid"
  from b have kb: "0 < nat b" by simp
  show ?case
  proof (cases "i < int (length ?xs)")
    case False
    with Suc.prems have "?rest = []" by simp
    with False kb show ?thesis by (simp add: batchesOf_Nil)
  next
    case True
    let ?batch = "take (nat b) ?rest"
    let ?rest' = "drop (nat (i + b)) ?xs"
    let ?more = "i + b < int (length ?xs)"
    let ?t1 = "?f (noteEvent (Batch ?batch) t) ?batch"
    let ?t2 = "if ?more then noteEvent (Delay pause) ?t1 else ?t1"
    let ?B = "batchesOf (nat b) ?rest"
    let ?B' = "batchesOf (nat b) ?rest'"
    from True Suc.prems have ne: "?rest \<noteq> []" by simp
    have slice: "jsSlice ?xs i (i + b) = ?batch"
      using Suc.prems(1) b by (rule jsSlice_batch)
    have rest': "?rest' = drop (nat b) ?rest"
      using Suc.prems(1) b by (simp add: nat_add_distrib add.commute)
    have more: "?more \<longleftrightarrow> ?rest' \<noteq> []"
      using Suc.prems(1) b by auto
    have step: "bulkLoop (Suc fuel) env data sid b pause i t
            = bulkLoop fuel env data sid b pause (i + b) ?t2"
      using True slice by (simp add: Let_def)
    have fuel: "nat (int (length ?xs) - (i + b)) < fuel"
      using Suc.prems b True by arith
    have nonneg: "0 \<le> i + b" using Suc.prems(1) b by simp
    have t1: "?t1 = (?f t ?batch)\<lparr>timeline := timeline t @ [Batch ?batch]\<rparr>"
      by (simp add: noteEvent_def runBatch_timeline_update)
    have tl1: "timeline (?f t ?batch) = timeline t"
      by (rule runBatch_tally(3))
    have t2: "?t2 = (?f t ?batch)
        \<lparr>timeline := timeline t @ Batch ?batch # (if ?more then [Delay pause] else [])\<rparr>"
      by (simp only: t1) (simp add: noteEvent_def)
    have bcons: "?B = ?batch # ?B'"
      using batchesOf_Cons [OF kb ne] by (simp add: rest')
    have fold: "foldl ?f (?f t ?batch) ?B' = foldl ?f t ?B"
      by (simp only: bcons foldl_Cons)
    have sched: "pausedBetween pause ?B
        = Batch ?batch # (if ?more then [Delay pause] else []) @ pausedBetween pause ?B'"
    proof -
      have "?B' = [] \<longleftrightarrow> \<not> ?more"
        using batchesOf_empty_iff [OF kb, of ?rest'] more by simp
      then show ?thesis
        by (cases ?more) (simp_all only: bcons pausedBetween_Cons, simp_all)
    qed
    let ?X = "timeline t @ Batch ?batch # (if ?more then [Delay pause] else [])"
    let ?P' = "pausedBetween pause ?B'"
    have ih: "bulkLoop fuel env data sid b pause (i + b) ?t2
        = Some ((foldl ?f ?t2 ?B')\<lparr>timeline := timeline ?t2 @ ?P'\<rparr>)"
      by (rule Suc.IH [OF nonneg fuel])
    have A: "foldl ?f ?t2 ?B' = (foldl ?f t ?B)\<lparr>timeline := ?X\<rparr>"
      by (simp only: t2 foldl_runBatch_timeline_update fold)
    have T2: "timeline ?t2 = ?X"
      by (simp only: t2) simp
    have "bulkLoop (Suc fuel) env data sid b pause i t
        = Some (((foldl ?f t ?B)\<lparr>timeline := ?X\<rparr>)\<lparr>timeline := ?X @ ?P'\<rparr>)"
      by (simp only: step ih A T2)
    also have "((foldl ?f t ?B)\<lparr>timeline := ?X\<rparr>)\<lparr>timeline := ?X @ ?P'\<rparr>
        = (foldl ?f t ?B)\<lparr>timeline := timeline t @ pausedBetween pause ?B\<rparr>"
      by (simp only: sched) simp
    finally show ?thesis .
  qed
qed

lemma bulkLoop_stuck:
  "b \<le> 0 \<Longrightarrow> i \<le> 0 \<Longrightarrow> recipients data \<noteq> [] \<Longrightarrow>
     bulkLoop fuel env data sid b pause i t = None"
proof (induction fuel arbitrary: i t)
  case 0
  show ?case by simp
next
  case (Suc fuel)
  from Suc.prems have "i < int (length (recipients data))" by (cases "recipients data") auto
  moreover from Suc.prems have "i + b \<le> 0" by simp
  ultimately show ?case
    using Suc.IH [OF Suc.prems(1) _ Suc.prems(3)] by (simp add: Let_def)
qed

lemma sendBulkEmails_never_returns:
  "batchSizeOf data \<le> 0 \<Longrightarrow> recipients data \<noteq> [] \<Longrightarrow> sendBulkEmails fuel env data sid w = None"
  by (simp add: sendBulkEmails_def bulkLoop_stuck)

lemma sendBulkEmails_run:
  assumes "0 < batchSizeOf data" and "length (recipients data) < fuel"
  shows "\<exists>res. sendBulkEmails fuel env data sid w = Some (res, finalTally env data sid w)
           \<and> bulkSuccess res = (0 < sent (finalTally env data sid w))
           \<and> totalSent res = sent (finalTally env data sid w)
           \<and> totalFailed res = length (failed (finalTally env data sid w))"
proof (cases "recipients data = []")
  case True
  with assms(1) show ?thesis
    by (simp add: sendBulkEmails_def finalTally_def batchesOf_Nil)
next
  case False
  have "nat (int (length (recipients data)) - 0) < fuel" using assms(2) by simp
  from bulkLoop_run [OF assms(1) _ this, where env = env and sid = sid and pause = "pauseOf data"
      and t = "\<lparr>failed = [], sent = 0, world = w, timeline = []\<rparr>"]
  have "bulkLoop fuel env data sid (batchSizeOf data) (pauseOf data) 0
          \<lparr>failed = [], sent = 0, world = w, timeline = []\<rparr> = Some (finalTally env data sid w)"
    by (simp add: finalTally_def)
  with False show ?thesis by (simp add: sendBulkEmails_def)
qed

text \<open>
  What the final state holds: the count of the recipients whose send succeeded, one
  failure for each of the others, the batches with the pauses between them, and, when the
  log accepts every entry, one entry for each recipient in input order.
\<close>

lemma finalTally_fields:
  assumes "0 < batchSizeOf data"
  shows "sent (finalTally env data sid w) = length (filter (sentOk env data sid) (recipients data))"
    and "mset (map failEmail (failed (finalTally env data sid w)))
           = mset (map email (filter (\<lambda>r. \<not> sentOk env data sid r) (recipients data)))"
    and "timeline (finalTally env data sid w)
           = pausedBetween (pauseOf data) (batchesOf (nat (batchSizeOf data)) (recipients data))"
proof -
  from assms have k: "0 < nat (batchSizeOf data)" by simp
  note c = concat_batchesOf [OF k, of "recipients data"]
  note f = foldl_runBatch_tally [of env data sid "\<lparr>failed = [], sent = 0, world = w, timeline = []\<rparr>"
      "batchesOf (nat (batchSizeOf data)) (recipients data)"]
  show "sent (finalTally env data sid w) = length (filter (sentOk env data sid) (recipients data))"
    using f(1) by (simp add: finalTally_def c)
  show "mset (map failEmail (failed (finalTally env data sid w)))
           = mset (map email (filter (\<lambda>r. \<not> sentOk env data sid r) (recipients data)))"
    using f(2) by (simp add: finalTally_def c)
  show "timeline (finalTally env data sid w)
           = pausedBetween (pauseOf data) (batchesOf (nat (batchSizeOf data)) (recipients data))"
    by (simp add: finalTally_def)
qed

lemma finalTally_logs:
  assumes "0 < batchSizeOf data" and acc: "\<forall>entry. logEmailActivity env entry = None"
  shows "\<exists>entries. emailLog (world (finalTally env data sid w)) = emailLog w @ entries
           \<and> map recipient entries = map email (recipients data)
           \<and> logCalls (world (finalTally env data sid w)) = logCalls w + length (recipients data)"
proof -
  from assms have k: "0 < nat (batchSizeOf data)" by simp
  note c = concat_batchesOf [OF k, of "recipients data"]
  from foldl_runBatch_logs [OF acc, of data sid "\<lparr>failed = [], sent = 0, world = w, timeline = []\<rparr>"
      "batchesOf (nat (batchSizeOf data)) (recipients data)"]
  show ?thesis by (simp add: finalTally_def c)
qed

lemma sum_filter_length:
  "length (filter P xs) + length (filter (\<lambda>x. \<not> P x) xs) = length xs"
  by (induction xs) simp_all

lemma batches_bounded:
  assumes "0 < k"
  shows "b \<in> set (batchesOf k xs) \<Longrightarrow> b \<noteq> [] \<and> length b \<le> k"
proof (induction xs arbitrary: b rule: length_induct)
  case (1 xs)
  show ?case
  proof (cases "xs = []")
    case True
    with assms 1(2) show ?thesis by (simp add: batchesOf_Nil)
  next
    case False
    from 1(2) batchesOf_Cons [OF assms False]
    have "b = take k xs \<or> b \<in> set (batchesOf k (drop k xs))" by auto
    then show ?thesis
    proof
      assume "b = take k xs"
      with False assms show ?thesis by auto
    next
      assume "b \<in> set (batchesOf k (drop k xs))"
      moreover from False assms have "length (drop k xs) < length xs" by simp
      ultimately show ?thesis using 1(1) by blast
    qed
  qed
qed

text \<open>Unfolding rules for running a bulk call on the sample data.\<close>

lemmas bulk_defs = sendBulkEmails_def batchSizeOf_def pauseOf_def jsSlice_def runBatch_def
  startOne_def finishOne_def writesLeft_def startSend_def finishSend_def catchBlock_def
  singleData_def noteEvent_def formatRecipient_def quoted_def twoData_def

subsection \<open>Counts of a bulk call\<close>

text \<open>
  C1, as the code has it. For a request with \<open>n\<close> recipients and a positive batch size,
  \<^verbatim>\<open>sendBulkEmails\<close> returns (with enough fuel for its loop), and
  \<open>totalSent + totalFailed = n\<close>. When the activity log accepts every entry, exactly \<open>n\<close>
  entries are written by \<open>n\<close> calls of \<^verbatim>\<open>logEmailActivity\<close>, one for each recipient,
  whether its send succeeded or failed.
\<close>

theorem bulk_counts:
  "0 < batchSizeOf data \<and> length (recipients data) < fuel \<longrightarrow>
     (\<exists>res t. sendBulkEmails fuel env data sid w = Some (res, t)
        \<and> totalSent res + totalFailed res = length (recipients data)
        \<and> ((\<forall>entry. logEmailActivity env entry = None) \<longrightarrow>
             (\<exists>entries. emailLog (world t) = emailLog w @ entries
                \<and> map recipient entries = map email (recipients data)
                \<and> logCalls (world t) = logCalls w + length (recipients data))))"
proof
  assume a: "0 < batchSizeOf data \<and> length (recipients data) < fuel"
  let ?t = "finalTally env data sid w"
  from a sendBulkEmails_run [of data fuel env sid w]
  obtain res where res: "sendBulkEmails fuel env data sid w = Some (res, ?t)"
    "totalSent res = sent ?t" "totalFailed res = length (failed ?t)"
    by blast
  from a have pos: "0 < batchSizeOf data" by simp
  have "length (failed ?t) = size (mset (map failEmail (failed ?t)))" by simp
  also have "\<dots> = length (filter (\<lambda>r. \<not> sentOk env data sid r) (recipients data))"
    by (simp only: finalTally_fields(2) [OF pos] size_mset length_map)
  finally have "totalSent res + totalFailed res = length (recipients data)"
    using res(2,3) sum_filter_length [of "sentOk env data sid" "recipients data"]
    by (simp add: finalTally_fields(1) [OF pos])
  moreover have "\<exists>entries. emailLog (world ?t) = emailLog w @ entries
                \<and> map recipient entries = map email (recipients data)
                \<and> logCalls (world ?t) = logCalls w + length (recipients data)"
    if "\<forall>entry. logEmailActivity env entry = None"
    using finalTally_logs [OF pos that] by blast
  ultimately show "\<exists>res t. sendBulkEmails fuel env data sid w = Some (res, t)
        \<and> totalSent res + totalFailed res = length (recipients data)
        \<and> ((\<forall>entry. logEmailActivity env entry = None) \<longrightarrow>
             (\<exists>entries. emailLog (world t) = emailLog w @ entries
                \<and> map recipient entries = map email (recipients data)
                \<and> logCalls (world t) = logCalls w + length (recipients data)))"
    using res(1) by blast
qed

theorem bulk_counts_witness:
  "\<exists>res t. sendBulkEmails 3 goodEnv twoData None world0 = Some (res, t)
      \<and> totalSent res + totalFailed res = 2
      \<and> map recipient (emailLog (world t)) = [''ann@x.com'', ''bob@x.com'']
      \<and> logCalls (world t) = 2"
proof -
  have h: "0 < batchSizeOf twoData \<and> length (recipients twoData) < 3"
    by (simp add: batchSizeOf_def twoData_def)
  have l: "\<forall>entry. logEmailActivity goodEnv entry = None"
    by (simp add: goodEnv_def)
  from bulk_counts [of twoData 3 goodEnv None world0] h l
  obtain res t entries where "sendBulkEmails 3 goodEnv twoData None world0 = Some (res, t)"
    "totalSent res + totalFailed res = length (recipients twoData)"
    "emailLog (world t) = emailLog world0 @ entries"
    "map recipient entries = map email (recipients twoData)"
    "logCalls (world t) = logCalls world0 + length (recipients twoData)"
    by blast
  then show ?thesis
    by (simp add: twoData_def world0_def annRecipient_def bobRecipient_def)
qed


text \<open>
  C1 as stated fails: with two recipients and a log that rejects every write, no entry is
  written, and \<^verbatim>\<open>logEmailActivity\<close> is called four times, not twice. Both sends are
  delivered and both are counted as failed.
\<close>

theorem bulk_log_down_writes_nothing:
  "map_option (totalSent \<circ> fst) (sendBulkEmails 3 logDownEnv twoData None world0) = Some 0
   \<and> map_option (totalFailed \<circ> fst) (sendBulkEmails 3 logDownEnv twoData None world0) = Some 2
   \<and> map_option (emailLog \<circ> world \<circ> snd) (sendBulkEmails 3 logDownEnv twoData None world0) = Some []
   \<and> map_option (logCalls \<circ> world \<circ> snd) (sendBulkEmails 3 logDownEnv twoData None world0) = Some 4
   \<and> length (recipients twoData) = 2"
  by (simp add: numeral_3_eq_3 bulk_defs send_defs sample_defs)


subsection \<open>The result of a bulk call\<close>




subsection \<open>Batches and pauses\<close>

text \<open>
  C7, for a batch size of at least one. With the batch size \<open>b\<close> and the pause \<open>d\<close> of the
  request (10 and 1000 where the request has none), \<^verbatim>\<open>sendBulkEmails\<close> starts the batches
  of the specification, contiguous slices of \<open>b\<close> recipients in input order with the
  remainder in the last one, and takes a pause of \<open>d\<close> milliseconds after every batch but
  the last. The batches put together give the recipient list, all but the last have \<open>b\<close>
  recipients, none is empty or longer than \<open>b\<close>, and 25 recipients in batches of 10 give
  three batches of 10, 10 and 5.
\<close>

theorem bulk_batches:
  "(batchSize data = Some b \<or> batchSize data = None \<and> b = 10)
   \<and> (delayBetweenBatches data = Some d \<or> delayBetweenBatches data = None \<and> d = 1000)
   \<and> 0 < b \<and> length (recipients data) < fuel \<longrightarrow>
      (\<exists>res t. sendBulkEmails fuel env data sid w = Some (res, t)
         \<and> timeline t = pausedBetween d (batchesOf (nat b) (recipients data)))
      \<and> concat (batchesOf (nat b) (recipients data)) = recipients data
      \<and> (\<forall>batch \<in> set (butlast (batchesOf (nat b) (recipients data))). length batch = nat b)
      \<and> (\<forall>batch \<in> set (batchesOf (nat b) (recipients data)). batch \<noteq> [] \<and> length batch \<le> nat b)
      \<and> (length (recipients data) = 25 \<and> b = 10 \<longrightarrow>
            map length (batchesOf (nat b) (recipients data)) = [10, 10, 5])"
proof
  assume a: "(batchSize data = Some b \<or> batchSize data = None \<and> b = 10)
   \<and> (delayBetweenBatches data = Some d \<or> delayBetweenBatches data = None \<and> d = 1000)
   \<and> 0 < b \<and> length (recipients data) < fuel"
  then have bs: "batchSizeOf data = b" and ps: "pauseOf data = d"
    by (auto simp: batchSizeOf_def pauseOf_def)
  from a have pos: "0 < batchSizeOf data" and fuel: "length (recipients data) < fuel"
    and k: "0 < nat b"
    by (simp_all add: bs)
  from sendBulkEmails_run [OF pos fuel, of env sid w]
  obtain res where "sendBulkEmails fuel env data sid w = Some (res, finalTally env data sid w)"
    by blast
  then have 1: "\<exists>res t. sendBulkEmails fuel env data sid w = Some (res, t)
         \<and> timeline t = pausedBetween d (batchesOf (nat b) (recipients data))"
    using finalTally_fields(3) [OF pos, of env sid w] by (simp add: bs ps)
  have 2: "concat (batchesOf (nat b) (recipients data)) = recipients data"
    using k by (rule concat_batchesOf)
  have 3: "\<forall>batch \<in> set (butlast (batchesOf (nat b) (recipients data))). length batch = nat b"
    using full_batches [OF k] by blast
  have 4: "\<forall>batch \<in> set (batchesOf (nat b) (recipients data)). batch \<noteq> [] \<and> length batch \<le> nat b"
    using batches_bounded [OF k] by blast
  have 5: "length (recipients data) = 25 \<and> b = 10 \<longrightarrow>
            map length (batchesOf (nat b) (recipients data)) = [10, 10, 5]"
    using batches_25_by_10 [of "recipients data"] by simp
  from 1 2 3 4 5
  show "(\<exists>res t. sendBulkEmails fuel env data sid w = Some (res, t)
         \<and> timeline t = pausedBetween d (batchesOf (nat b) (recipients data)))
      \<and> concat (batchesOf (nat b) (recipients data)) = recipients data
      \<and> (\<forall>batch \<in> set (butlast (batchesOf (nat b) (recipients data))). length batch = nat b)
      \<and> (\<forall>batch \<in> set (batchesOf (nat b) (recipients data)). batch \<noteq> [] \<and> length batch \<le> nat b)
      \<and> (length (recipients data) = 25 \<and> b = 10 \<longrightarrow>
            map length (batchesOf (nat b) (recipients data)) = [10, 10, 5])"
    by (intro conjI)
qed

theorem bulk_batches_witness:
  "batchSize fiveData = Some 2 \<and> delayBetweenBatches fiveData = Some 250
   \<and> (\<exists>res t. sendBulkEmails 6 goodEnv fiveData None world0 = Some (res, t)
        \<and> timeline t = [Batch [annRecipient, bobRecipient], Delay 250,
                         Batch [cyRecipient, diRecipient], Delay 250,
                         Batch [edRecipient]])
   \<and> batchSize twoData = None \<and> delayBetweenBatches twoData = None
   \<and> (\<exists>res t. sendBulkEmails 3 goodEnv twoData None world0 = Some (res, t)
        \<and> timeline t = [Batch [annRecipient, bobRecipient]])
   \<and> length (recipients manyData) = 25 \<and> batchSize manyData = Some 10
   \<and> delayBetweenBatches manyData = None
   \<and> (\<exists>res t. sendBulkEmails 26 goodEnv manyData None world0 = Some (res, t)
        \<and> timeline t = [Batch (replicate 10 bobRecipient), Delay 1000,
                         Batch (replicate 10 bobRecipient), Delay 1000,
                         Batch (replicate 5 bobRecipient)])
   \<and> map length (batchesOf 10 (recipients manyData)) = [10, 10, 5]
   \<and> concat (batchesOf 10 (recipients manyData)) = recipients manyData"
proof -
  have five: "batchSize fiveData = Some 2" "delayBetweenBatches fiveData = Some 250"
    "recipients fiveData = [annRecipient, bobRecipient, cyRecipient, diRecipient, edRecipient]"
    by (simp_all add: fiveData_def twoData_def)
  have two: "batchSize twoData = None" "delayBetweenBatches twoData = None"
    "recipients twoData = [annRecipient, bobRecipient]"
    by (simp_all add: twoData_def)
  have many: "batchSize manyData = Some 10" "delayBetweenBatches manyData = None"
    "recipients manyData = replicate 25 bobRecipient"
    by (simp_all add: manyData_def twoData_def)
  have b5: "batchesOf 2 (recipients fiveData)
      = [[annRecipient, bobRecipient], [cyRecipient, diRecipient], [edRecipient]]"
    by (simp add: five batchesOf_def numeral_3_eq_3)
  have b2: "batchesOf 10 (recipients twoData) = [[annRecipient, bobRecipient]]"
    by (simp add: two batchesOf_def)
  have b25: "batchesOf 10 (recipients manyData)
      = [replicate 10 bobRecipient, replicate 10 bobRecipient, replicate 5 bobRecipient]"
    by (simp add: many batchesOf_def numeral_3_eq_3)
  from bulk_batches [of fiveData 2 250 6 goodEnv None world0] five
  have 1: "\<exists>res t. sendBulkEmails 6 goodEnv fiveData None world0 = Some (res, t)
         \<and> timeline t = pausedBetween 250 (batchesOf 2 (recipients fiveData))"
    by simp
  from bulk_batches [of twoData 10 1000 3 goodEnv None world0] two
  have 2: "\<exists>res t. sendBulkEmails 3 goodEnv twoData None world0 = Some (res, t)
         \<and> timeline t = pausedBetween 1000 (batchesOf 10 (recipients twoData))"
    by simp
  from bulk_batches [of manyData 10 1000 26 goodEnv None world0] many
  have 3: "\<exists>res t. sendBulkEmails 26 goodEnv manyData None world0 = Some (res, t)
         \<and> timeline t = pausedBetween 1000 (batchesOf 10 (recipients manyData))"
    "concat (batchesOf 10 (recipients manyData)) = recipients manyData"
    "map length (batchesOf 10 (recipients manyData)) = [10, 10, 5]"
    by simp_all
  have len: "length (recipients manyData) = 25" by (simp add: many(3))
  from 1 have w5: "\<exists>res t. sendBulkEmails 6 goodEnv fiveData None world0 = Some (res, t)
        \<and> timeline t = [Batch [annRecipient, bobRecipient], Delay 250,
                         Batch [cyRecipient, diRecipient], Delay 250,
                         Batch [edRecipient]]"
    by (simp add: b5)
  from 2 have w2: "\<exists>res t. sendBulkEmails 3 goodEnv twoData None world0 = Some (res, t)
        \<and> timeline t = [Batch [annRecipient, bobRecipient]]"
    by (simp add: b2)
  from 3(1) have w25: "\<exists>res t. sendBulkEmails 26 goodEnv manyData None world0 = Some (res, t)
        \<and> timeline t = [Batch (replicate 10 bobRecipient), Delay 1000,
                         Batch (replicate 10 bobRecipient), Delay 1000,
                         Batch (replicate 5 bobRecipient)]"
    by (simp add: b25)
  from five(1,2) w5 two(1,2) w2 len many(1,2) w25 3(3) 3(2) show ?thesis
    by simp
qed

text \<open>
  C7 as stated fails for a batch size that is not positive. With the batch size zero
  every slice is empty, the index never moves, and the call does not return: no amount of
  fuel suffices. The two recipients are never put into a batch.
\<close>

theorem zero_batch_size_never_returns:
  "batchSize zeroData = Some 0
   \<and> recipients zeroData = [annRecipient, bobRecipient]
   \<and> jsSlice (recipients zeroData) 0 (0 + 0) = []
   \<and> (\<forall>fuel. sendBulkEmails fuel goodEnv zeroData None world0 = None)"
proof -
  have z: "batchSize zeroData = Some 0" "recipients zeroData = [annRecipient, bobRecipient]"
    by (simp_all add: zeroData_def twoData_def)
  then have "batchSizeOf zeroData \<le> 0" "recipients zeroData \<noteq> []"
    by (simp_all add: batchSizeOf_def)
  then have "\<forall>fuel. sendBulkEmails fuel goodEnv zeroData None world0 = None"
    by (simp add: sendBulkEmails_never_returns)
  with z show ?thesis by (simp add: jsSlice_def)
qed

end
